theory Spec2Isabelle
  imports Complex_Main "HOL-Library.Word"
begin

section \<open>Python values and exceptions\<close>

text \<open>
  The development embeds the validation core of \<^verbatim>\<open>sent.py\<close>: the stake checks
  (\<^verbatim>\<open>check_stakes\<close>, the stake section of \<^verbatim>\<open>validate_registration\<close>), the currency codec
  (\<^verbatim>\<open>format_currency\<close>, \<^verbatim>\<open>parse_currency\<close>), the key and signature checks
  (\<^verbatim>\<open>check_reg_keys_sigs\<close>) and the registration endpoints.

  Python integers are unbounded: amounts are \<open>int\<close>. \<^verbatim>\<open>bytes\<close> are lists of 8-bit words,
  \<^verbatim>\<open>str\<close> is \<open>string\<close> (only ASCII text occurs in the modelled paths). A raised exception
  is the \<open>Inl\<close> branch of a sum.
\<close>

type_synonym bytes = "8 word list"

datatype exn =
    ValueError string
  | ParseError string string
  | ParseMissingError string
  | ParseUnknownError string
  | ParseMultipleError string
  | SNSignatureValidationError string
  | TypeError
  | ZeroDivisionError

text \<open>
  \<^verbatim>\<open>ParseError(field, reason)\<close> and \<^verbatim>\<open>SNSignatureValidationError\<close> are subclasses of
  \<^verbatim>\<open>ValueError\<close>; \<^verbatim>\<open>ParseMissingError\<close>, \<^verbatim>\<open>ParseUnknownError\<close> and \<^verbatim>\<open>ParseMultipleError\<close>
  are subclasses of \<^verbatim>\<open>ParseError\<close> that fix the reason. So \<^verbatim>\<open>except ValueError\<close> catches
  all of them, and neither \<^verbatim>\<open>TypeError\<close> nor \<^verbatim>\<open>ZeroDivisionError\<close>.
\<close>

fun isinstance_ValueError :: "exn \<Rightarrow> bool" where
  "isinstance_ValueError TypeError = False"
| "isinstance_ValueError ZeroDivisionError = False"
| "isinstance_ValueError _ = True"

text \<open>\<^verbatim>\<open>str(e)\<close> of a \<^verbatim>\<open>ParseError\<close>: \<^verbatim>\<open>f"{field}: {reason}"\<close>.\<close>

fun str_parse_error :: "exn \<Rightarrow> string" where
  "str_parse_error (ParseError field reason) = field @ '': '' @ reason"
| "str_parse_error (ParseMissingError field) = field @ '': required parameter is missing''"
| "str_parse_error (ParseUnknownError field) = field @ '': unknown parameter''"
| "str_parse_error (ParseMultipleError field) = field @ '': cannot be specified multiple times''"
| "str_parse_error _ = []"

text \<open>\<^verbatim>\<open>a // b\<close>: floor division, raising on a zero divisor. HOL's \<open>div\<close> on \<open>int\<close> floors too.\<close>

definition floordiv :: "int \<Rightarrow> int \<Rightarrow> exn + int" where
  "floordiv a b = (if b = 0 then Inl ZeroDivisionError else Inr (a div b))"

subsection \<open>Decimal text\<close>

definition digit_char :: "nat \<Rightarrow> char" where
  "digit_char n = ''0123456789'' ! n"

definition is_digit :: "char \<Rightarrow> bool" where
  "is_digit c = (c \<in> set ''0123456789'')"

definition digit_val :: "char \<Rightarrow> nat" where
  "digit_val c = of_char c - 48"

text \<open>\<^verbatim>\<open>str(n)\<close> for \<open>n \<ge> 0\<close>, and for any integer.\<close>

function str_nat :: "nat \<Rightarrow> string" where
  "str_nat n = (if n < 10 then [digit_char n] else str_nat (n div 10) @ [digit_char (n mod 10)])"
  by pat_completeness auto
termination
  by (relation "measure (\<lambda>n. n)") auto

declare str_nat.simps [simp del]

definition str_int :: "int \<Rightarrow> string" where
  "str_int i = (if i < 0 then CHR ''-'' # str_nat (nat (- i)) else str_nat (nat i))"

text \<open>The value of a string of decimal digits, most significant first.\<close>

definition nat_of_digits :: "string \<Rightarrow> nat" where
  "nat_of_digits s = foldl (\<lambda>acc c. 10 * acc + digit_val c) 0 s"

text \<open>
  \<^verbatim>\<open>re.fullmatch(r"\d+", p)\<close> on ASCII text: one or more decimal digits.
\<close>

definition fullmatch_digits :: "string \<Rightarrow> bool" where
  "fullmatch_digits p = (p \<noteq> [] \<and> list_all is_digit p)"

text \<open>
  \<^verbatim>\<open>int(s)\<close> on the strings \<^verbatim>\<open>parse_currency\<close> passes to it: digit strings, and the empty
  string (a fraction cut to zero places), on which Python raises \<^verbatim>\<open>ValueError\<close>.
\<close>

definition py_int :: "string \<Rightarrow> exn + int" where
  "py_int s = (if fullmatch_digits s then Inr (int (nat_of_digits s))
               else Inl (ValueError ''invalid literal for int() with base 10''))"

text \<open>\<^verbatim>\<open>s.split(c)\<close> for a one-character separator: never an empty list.\<close>

fun str_split :: "char \<Rightarrow> string \<Rightarrow> string list" where
  "str_split c [] = [[]]"
| "str_split c (x # xs) =
     (if x = c then [] # str_split c xs
      else (let ps = str_split c xs in (x # hd ps) # tl ps))"

text \<open>\<^verbatim>\<open>s.rstrip(c)\<close>, \<^verbatim>\<open>s.ljust(w, c)\<close> and the zero-padded field \<^verbatim>\<open>{n:0wd}\<close> for \<open>n \<ge> 0\<close>.\<close>

definition rstrip :: "char \<Rightarrow> string \<Rightarrow> string" where
  "rstrip c s = rev (dropWhile (\<lambda>x. x = c) (rev s))"

definition ljust :: "nat \<Rightarrow> char \<Rightarrow> string \<Rightarrow> string" where
  "ljust w c s = s @ replicate (w - length s) c"

definition zero_padded :: "nat \<Rightarrow> nat \<Rightarrow> string" where
  "zero_padded w n = replicate (w - length (str_nat n)) CHR ''0'' @ str_nat n"

section \<open>Stake checks: \<^verbatim>\<open>check_stakes\<close>\<close>

text \<open>
  The loop of \<^verbatim>\<open>check_stakes\<close> over \<^verbatim>\<open>range(len(stakes))\<close>, with the index \<open>i\<close>, the stakes
  from index \<open>i\<close> on and the two running variables. The message of the shortfall is the
  source's string literal as written: it has no \<^verbatim>\<open>f\<close> prefix, so its braces are not
  substituted.
\<close>

fun check_stakes_loop :: "nat \<Rightarrow> int list \<Rightarrow> int \<Rightarrow> int \<Rightarrow> exn + unit" where
  "check_stakes_loop i [] remaining_stake remaining_spots = Inr ()"
| "check_stakes_loop i (s # ss) remaining_stake remaining_spots =
     (case floordiv remaining_stake (if i = 0 then 4 else remaining_spots) of
        Inl e \<Rightarrow> Inl e
      | Inr reqd \<Rightarrow>
          if s < reqd
          then Inl (ValueError ''reserved stake [i] ({stakers[i]}) is too low ({stakes[i]} < {reqd})'')
          else check_stakes_loop (i + 1) ss (remaining_stake - s) (remaining_spots - 1))"

definition check_stakes :: "int list \<Rightarrow> int \<Rightarrow> string list \<Rightarrow> int \<Rightarrow> exn + unit" where
  "check_stakes stakes total_stake stakers max_stakers =
     (if length stakers \<noteq> length stakes
      then Inl (ValueError ''s and S have different lengths'')
      else if length stakers < 1
      then Inl (ValueError ''at least one s/S value pair is required'')
      else if int (length stakers) > max_stakers
      then Inl (ValueError (''too many stakers ('' @ str_nat (length stakers) @ '' > ''
                              @ str_int max_stakers @ '')''))
      else if sum_list stakes > total_stake
      then Inl (ValueError (''total stake is too large ('' @ str_int (sum_list stakes)
                              @ '' > total)''))
      else if length (remdups stakers) \<noteq> length stakers
      then Inl (ValueError ''duplicate staking addresses in staker list'')
      else check_stakes_loop 0 stakes total_stake max_stakers)"

text \<open>
  The rule as the specification words it: the amount at index \<open>i\<close> is at least the stake
  still open before it, floor-divided by 4 at index 0 and by the spots still open
  otherwise.
\<close>

definition required_min :: "int list \<Rightarrow> int \<Rightarrow> int \<Rightarrow> nat \<Rightarrow> int" where
  "required_min stakes total_stake max_stakers i =
     (total_stake - sum_list (take i stakes)) div (if i = 0 then 4 else max_stakers - int i)"

definition meets_proportional_rule :: "int list \<Rightarrow> int \<Rightarrow> int \<Rightarrow> bool" where
  "meets_proportional_rule stakes total_stake max_stakers =
     list_all (\<lambda>i. required_min stakes total_stake max_stakers i \<le> stakes ! i) [0 ..< length stakes]"

section \<open>Currency codec\<close>

definition format_currency :: "int \<Rightarrow> nat \<Rightarrow> string" where
  "format_currency units decimal =
     (let base = 10 ^ decimal;
          frac_units = units mod base;
          frac_text = (if frac_units = 0 then ''''
                       else rstrip CHR ''0'' (CHR ''.'' # zero_padded decimal (nat frac_units)))
      in str_int (units div base) @ frac_text)"

definition parse_currency :: "string \<Rightarrow> string \<Rightarrow> nat \<Rightarrow> exn + int" where
  "parse_currency k val decimal =
     (let pieces = str_split CHR ''.'' val in
      if length pieces > 2 \<or> \<not> list_all fullmatch_digits pieces
      then Inl (ParseError k ''Invalid currency amount'')
      else case py_int (pieces ! 0) of
             Inl e \<Rightarrow> Inl e
           | Inr whole \<Rightarrow>
               (if length pieces > 1
                then (let frac_text = pieces ! 1;
                          frac_text = (if length frac_text > decimal then take decimal frac_text
                                       else if length frac_text < decimal
                                       then ljust decimal CHR ''0'' frac_text
                                       else frac_text)
                      in case py_int frac_text of
                           Inl e \<Rightarrow> Inl e
                         | Inr frac_units \<Rightarrow> Inr (whole * 10 ^ decimal + frac_units))
                else Inr (whole * 10 ^ decimal + 0)))"


section \<open>External primitives and addresses\<close>

text \<open>
  The libraries the code calls are parameters of the model: libsodium's point check, the
  Ed25519 verification of PyNaCl, and \<^verbatim>\<open>eth_utils\<close> (\<open>to_checksum_address\<close> is \<open>None\<close> where
  the library raises \<^verbatim>\<open>ValueError\<close>).

  \<open>verify pk msg sig\<close> is the outcome of \<^verbatim>\<open>VerifyKey(pk).verify(msg, sig)\<close> for a 32-byte
  \<open>pk\<close>: the call returns, it raises \<^verbatim>\<open>nacl.exceptions.BadSignatureError\<close>, or it raises
  \<^verbatim>\<open>nacl.exceptions.ValueError\<close> with a message, as PyNaCl does for a signature that is not
  64 bytes long. That class derives from the builtin \<^verbatim>\<open>ValueError\<close>, so it is the \<open>ValueError\<close>
  of \<open>exn\<close>.
\<close>

datatype verify_outcome = Verified | BadSignatureError | NaclValueError string

datatype address = AddressBytes bytes | AddressText string

record primitives =
  crypto_core_ed25519_is_valid_point :: "bytes \<Rightarrow> bool"
  verify :: "bytes \<Rightarrow> bytes \<Rightarrow> bytes \<Rightarrow> verify_outcome"
  is_address :: "string \<Rightarrow> bool"
  to_checksum_address :: "address \<Rightarrow> string option"

definition is_hexdigit :: "char \<Rightarrow> bool" where
  "is_hexdigit c = (c \<in> set ''0123456789abcdefABCDEF'')"

definition hex_val :: "char \<Rightarrow> nat" where
  "hex_val c = (let n = of_char c in
                if n < 58 then n - 48 else if n < 71 then n - 55 else n - 87)"

definition is_space :: "char \<Rightarrow> bool" where
  "is_space c = (of_char c \<in> set [32, 9, 10, 11, 12, 13 :: nat])"

text \<open>
  \<^verbatim>\<open>bytes.fromhex(s)\<close>: pairs of hexadecimal digits, ASCII whitespace allowed between
  the pairs. (Python's message also gives the position of the offending character.)
\<close>

fun bytes_fromhex :: "string \<Rightarrow> exn + bytes" where
  "bytes_fromhex [] = Inr []"
| "bytes_fromhex [c] =
     (if is_space c then Inr []
      else Inl (ValueError ''non-hexadecimal number found in fromhex() arg''))"
| "bytes_fromhex (c # d # cs) =
     (if is_space c then bytes_fromhex (d # cs)
      else if is_hexdigit c \<and> is_hexdigit d
      then (case bytes_fromhex cs of
              Inl e \<Rightarrow> Inl e
            | Inr bs \<Rightarrow> Inr (word_of_nat (16 * hex_val c + hex_val d) # bs))
      else Inl (ValueError ''non-hexadecimal number found in fromhex() arg''))"

text \<open>\<^verbatim>\<open>re.fullmatch(eth_re, v)\<close> with \<^verbatim>\<open>eth_re = "0x[0-9a-fA-F]{40}"\<close>.\<close>

definition fullmatch_eth_re :: "string \<Rightarrow> bool" where
  "fullmatch_eth_re v = (length v = 42 \<and> take 2 v = ''0x'' \<and> list_all is_hexdigit (drop 2 v))"

definition raw_eth_addr :: "primitives \<Rightarrow> string \<Rightarrow> string \<Rightarrow> exn + bytes" where
  "raw_eth_addr prim k v =
     (if fullmatch_eth_re v
      then (if \<not> is_address prim v then Inl (ParseError k ''ETH address checksum failed'')
            else bytes_fromhex (drop 2 v))
      else Inl (ParseError k ''not an ETH address''))"

text \<open>
  \<^verbatim>\<open>eth_format\<close> catches the library's \<^verbatim>\<open>ValueError\<close> and raises
  \<^verbatim>\<open>ParseError("Invalid ETH address")\<close>; the constructor takes two arguments
  (\<^verbatim>\<open>field\<close>, \<^verbatim>\<open>reason\<close>), so building that exception raises \<^verbatim>\<open>TypeError\<close>.
\<close>

definition eth_format :: "primitives \<Rightarrow> address \<Rightarrow> exn + string" where
  "eth_format prim addr =
     (case to_checksum_address prim addr of Some a \<Rightarrow> Inr a | None \<Rightarrow> Inl TypeError)"

section \<open>Key and signature checks: \<^verbatim>\<open>check_reg_keys_sigs\<close>\<close>

text \<open>
  The parsed query parameters. \<^verbatim>\<open>parse_query_params\<close> belongs to the HTTP layer; its
  outcome (the dictionary, or the exception it raised) is an input of the endpoints
  below. Absent optional parameters are \<open>None\<close>; the two reserved lists default to \<open>[]\<close>.
\<close>

record params =
  pubkey_ed25519 :: bytes
  pubkey_bls :: bytes
  sig_ed25519 :: bytes
  sig_bls :: bytes
  contract :: "bytes option"
  operator :: bytes
  stake :: int
  res_addr :: "string list"
  res_stake :: "string list"
  fee :: "string option"

definition check_reg_keys_sigs :: "primitives \<Rightarrow> params \<Rightarrow> exn + unit" where
  "check_reg_keys_sigs prim params =
     (if length (pubkey_ed25519 params) \<noteq> 32
         \<or> \<not> crypto_core_ed25519_is_valid_point prim (pubkey_ed25519 params)
      then Inl (SNSignatureValidationError ''Ed25519 pubkey is invalid'')
      else if length (pubkey_bls params) \<noteq> 64
      then Inl (SNSignatureValidationError ''BLS pubkey is invalid'')
      else if length (operator params) \<noteq> 20
      then Inl (SNSignatureValidationError ''operator address is invalid'')
      else if (case contract params of None \<Rightarrow> False | Some c \<Rightarrow> length c \<noteq> 20)
      then Inl (SNSignatureValidationError ''contract address is invalid'')
      else (let signed = pubkey_ed25519 params @ pubkey_bls params in
            case verify prim (pubkey_ed25519 params) signed (sig_ed25519 params) of
              BadSignatureError \<Rightarrow>
                Inl (SNSignatureValidationError ''Ed25519 signature is invalid'')
            | NaclValueError msg \<Rightarrow> Inl (ValueError msg)
            | Verified \<Rightarrow>
                if False
                then Inl (SNSignatureValidationError ''BLS signature is invalid'')
                else Inr ()))"

section \<open>Responses\<close>

text \<open>
  What an endpoint does with a request: it returns a JSON body, lets an exception
  escape (the framework answers 500), or aborts with a status code. The body is the
  dictionary handed to \<^verbatim>\<open>json_response\<close>; the \<^verbatim>\<open>network\<close> and \<^verbatim>\<open>t\<close> fields that function
  adds (from a remote call and the clock) are outside the model.
\<close>

datatype 'a result = Json 'a | Raised exn | Abort nat

text \<open>
  The dictionary \<^verbatim>\<open>error_response(code, **err)\<close> returns under \<^verbatim>\<open>"error"\<close>: one constructor
  per code that \<^verbatim>\<open>validate_registration\<close> uses, with the keyword arguments it passes. The
  English \<^verbatim>\<open>"error"\<close> text derived from them is not modelled.
\<close>

datatype error =
    Bad_request string string
  | Signature "string option" string
  | Invalid_op_addr string
  | Invalid_op_stake
  | Invalid_contract_addr "string option"
  | Invalid_fee string
  | Invalid_res_addr string nat
  | Invalid_res_stake string nat
  | Wrong_op_stake int int
  | Insufficient_op_stake int int
  | Too_much int int
  | Too_many int
  | Insufficient_res_stake nat string int

record report =
  report_remaining_contribution :: int
  report_remaining_spots :: int
  report_remaining_min_contribution :: int

datatype validate_body = Error error | Success "report option"

section \<open>The endpoint \<^verbatim>\<open>/validate\<close>\<close>

text \<open>
  The staking requirement. \<^verbatim>\<open>sent.py\<close> fixes it in module constants; the endpoint is
  modelled for any values, and \<open>module_constants\<close> are the ones of the source.
\<close>

record requirement =
  MAX_STAKE :: int
  MAX_STAKERS :: int

definition MIN_OP_STAKE :: "requirement \<Rightarrow> int" where
  "MIN_OP_STAKE req = MAX_STAKE req div 4"

definition module_constants :: requirement where
  "module_constants = \<lparr>MAX_STAKE = 120000000000, MAX_STAKERS = 10\<rparr>"

definition startswith :: "string \<Rightarrow> string \<Rightarrow> bool" where
  "startswith s prefix = (take (length prefix) s = prefix)"

text \<open>The handlers of the exceptions of \<^verbatim>\<open>parse_query_params\<close>.\<close>

fun parse_failure :: "exn \<Rightarrow> validate_body result" where
  "parse_failure (ParseMissingError f) =
     Json (Error (Bad_request f (str_parse_error (ParseMissingError f))))"
| "parse_failure (ParseUnknownError f) =
     Json (Error (Bad_request f (str_parse_error (ParseUnknownError f))))"
| "parse_failure (ParseMultipleError f) =
     Json (Error (Bad_request f (str_parse_error (ParseMultipleError f))))"
| "parse_failure (ParseError f reason) =
     (if startswith f ''pubkey_'' \<or> startswith f ''sig_''
      then Json (Error (Signature (Some f) (str_parse_error (ParseError f reason))))
      else if f = ''operator''
      then Json (Error (Invalid_op_addr (str_parse_error (ParseError f reason))))
      else if f = ''stake'' then Json (Error Invalid_op_stake)
      else if f = ''contract'' then Json (Error (Invalid_contract_addr None))
      else Json (Error (Bad_request f (str_parse_error (ParseError f reason)))))"
| "parse_failure e = Raised e"

text \<open>\<^verbatim>\<open>int(fee) if re.fullmatch(r"\d+", fee) else -1\<close>.\<close>

definition fee_value :: "string \<Rightarrow> int" where
  "fee_value fee_text = (if fullmatch_digits fee_text then int (nat_of_digits fee_text) else - 1)"

text \<open>
  The loop that parses the reserved contributors. \<open>Inl\<close> is the endpoint's early
  return (or an escaping exception), \<open>Inr\<close> the list \<^verbatim>\<open>reserved\<close>.
\<close>

fun parse_reserved ::
  "primitives \<Rightarrow> nat \<Rightarrow> (string \<times> string) list \<Rightarrow> validate_body result + (bytes \<times> int) list"
where
  "parse_reserved prim i [] = Inr []"
| "parse_reserved prim i ((addr, stake_text) # rest) =
     (case raw_eth_addr prim ''res_addr'' addr of
        Inl e \<Rightarrow>
          (if isinstance_ValueError e
           then (case eth_format prim (AddressText addr) of
                   Inl e' \<Rightarrow> Inl (Raised e')
                 | Inr a \<Rightarrow> Inl (Json (Error (Invalid_res_addr a (i + 1)))))
           else Inl (Raised e))
      | Inr eth \<Rightarrow>
          (case parse_currency ''res_stake'' stake_text 9 of
             Inl e \<Rightarrow>
               (if isinstance_ValueError e
                then (case eth_format prim (AddressText addr) of
                        Inl e' \<Rightarrow> Inl (Raised e')
                      | Inr a \<Rightarrow> Inl (Json (Error (Invalid_res_stake a (i + 1)))))
                else Inl (Raised e))
           | Inr amt \<Rightarrow>
               (case parse_reserved prim (i + 1) rest of
                  Inl r \<Rightarrow> Inl r
                | Inr reserved \<Rightarrow> Inr ((eth, amt) # reserved))))"

text \<open>
  The loop over the reserved contributors, with the ceiling division written as the
  source does. \<open>Inr\<close> gives the two running variables after the loop.
\<close>

fun reserved_loop ::
  "primitives \<Rightarrow> nat \<Rightarrow> (bytes \<times> int) list \<Rightarrow> int \<Rightarrow> int \<Rightarrow> validate_body result + (int \<times> int)"
where
  "reserved_loop prim i [] remaining_stake remaining_spots = Inr (remaining_stake, remaining_spots)"
| "reserved_loop prim i ((addr, amt) # rest) remaining_stake remaining_spots =
     (case floordiv (remaining_stake + remaining_spots - 1) remaining_spots of
        Inl e \<Rightarrow> Inl (Raised e)
      | Inr min_contr \<Rightarrow>
          if amt < min_contr
          then (case eth_format prim (AddressBytes addr) of
                  Inl e \<Rightarrow> Inl (Raised e)
                | Inr a \<Rightarrow> Inl (Json (Error (Insufficient_res_stake (i + 1) a min_contr))))
          else reserved_loop prim (i + 1) rest (remaining_stake - amt) (remaining_spots - 1))"

text \<open>The stake section of the endpoint, from \<^verbatim>\<open>total_reserved\<close> on.\<close>

definition stake_checks ::
  "primitives \<Rightarrow> requirement \<Rightarrow> params \<Rightarrow> bool \<Rightarrow> (bytes \<times> int) list \<Rightarrow> validate_body result"
where
  "stake_checks prim req params solo reserved =
     (let total_reserved = stake params + sum_list (map snd reserved) in
      if solo
      then (if total_reserved \<noteq> MAX_STAKE req
            then Json (Error (Wrong_op_stake total_reserved (MAX_STAKE req)))
            else Json (Success None))
      else if stake params < MIN_OP_STAKE req
      then Json (Error (Insufficient_op_stake (stake params) (MIN_OP_STAKE req)))
      else if total_reserved > MAX_STAKE req
      then Json (Error (Too_much total_reserved (MAX_STAKE req)))
      else if 1 + int (length reserved) > MAX_STAKERS req
      then Json (Error (Too_many (MAX_STAKERS req - 1)))
      else (case reserved_loop prim 0 reserved (MAX_STAKE req - stake params) (MAX_STAKERS req - 1) of
              Inl r \<Rightarrow> r
            | Inr (remaining_stake, remaining_spots) \<Rightarrow>
                (case floordiv (remaining_stake + remaining_spots - 1) remaining_spots of
                   Inl e \<Rightarrow> Raised e
                 | Inr m \<Rightarrow>
                     Json (Success (Some \<lparr>report_remaining_contribution = remaining_stake,
                                          report_remaining_spots = remaining_spots,
                                          report_remaining_min_contribution = m\<rparr>)))))"

definition validate_registration ::
  "primitives \<Rightarrow> requirement \<Rightarrow> exn + params \<Rightarrow> validate_body result"
where
  "validate_registration prim req parsed =
     (case parsed of
        Inl e \<Rightarrow> parse_failure e
      | Inr params \<Rightarrow>
          (case check_reg_keys_sigs prim params of
             Inl (SNSignatureValidationError msg) \<Rightarrow> Json (Error (Signature None msg))
           | Inl e \<Rightarrow> Raised e
           | Inr _ \<Rightarrow>
               (let solo = (contract params = None) in
                if solo \<and> res_addr params \<noteq> []
                then Json (Error (Invalid_contract_addr
                       (Some ''the contract address is required for multi-contributor registrations'')))
                else if solo \<and> fee params \<noteq> None
                then Json (Error (Invalid_fee ''fee is not applicable to a solo node registration''))
                else (case fee params of
                        None \<Rightarrow>
                          Json (Error (Invalid_fee
                            ''fee is required for a multi-contribution registration''))
                      | Some fee_text \<Rightarrow>
                          if \<not> (0 \<le> fee_value fee_text \<and> fee_value fee_text \<le> 10000)
                          then Json (Error (Invalid_fee
                                 ''fee must be an integer between 0 and 10000 (= 100.00%)''))
                          else if length (res_addr params) \<noteq> length (res_stake params)
                          then Json (Error (Bad_request ''res_addr''
                                 ''mismatched reserved address/stake lists''))
                          else (case parse_reserved prim 0 (zip (res_addr params) (res_stake params)) of
                                  Inl r \<Rightarrow> r
                                | Inr reserved \<Rightarrow> stake_checks prim req params solo reserved)))))"

section \<open>Stored registrations\<close>

record registration_row =
  row_pubkey_ed25519 :: bytes
  row_pubkey_bls :: bytes
  row_sig_ed25519 :: bytes
  row_sig_bls :: bytes
  row_operator :: bytes
  row_contract :: "bytes option"
  row_timestamp :: int

datatype registration_type = Solo | Contract

text \<open>\<^verbatim>\<open>"solo" if contract is None else "contract"\<close>.\<close>

definition registration_kind :: "bytes option \<Rightarrow> registration_type" where
  "registration_kind c = (case c of None \<Rightarrow> Solo | Some _ \<Rightarrow> Contract)"

text \<open>
  Modelled from the spec: the declaration of the table \<^verbatim>\<open>registrations\<close> (its uniqueness
  constraint, which decides what \<^verbatim>\<open>INSERT OR REPLACE\<close> replaces, and the default of its
  \<^verbatim>\<open>timestamp\<close> column) is not part of \<^verbatim>\<open>sent.py\<close>. Following the specification, an
  upsert replaces any existing record with the same primary pubkey and kind, and the
  new record carries the time of the submission.
\<close>

definition same_slot :: "registration_row \<Rightarrow> registration_row \<Rightarrow> bool" where
  "same_slot r row =
     (row_pubkey_ed25519 r = row_pubkey_ed25519 row
      \<and> registration_kind (row_contract r) = registration_kind (row_contract row))"

definition upsert :: "registration_row \<Rightarrow> registration_row list \<Rightarrow> registration_row list" where
  "upsert row table = filter (\<lambda>r. \<not> same_slot r row) table @ [row]"

text \<open>\<^verbatim>\<open>ORDER BY timestamp DESC\<close> (rows of equal timestamp in table order).\<close>

definition order_by_timestamp_desc :: "registration_row list \<Rightarrow> registration_row list" where
  "order_by_timestamp_desc rows = sort_key (\<lambda>r. - row_timestamp r) rows"

datatype store_body = Store_success registration_type string "string option" params

text \<open>
  \<^verbatim>\<open>store_registration\<close>: the parsed parameters, the clock reading of the store and the
  table go in; the response and the table come out. The handler of the \<^verbatim>\<open>try\<close> block
  is \<^verbatim>\<open>raise e\<close>; the \<^verbatim>\<open>return\<close> after it is never reached.
\<close>

definition store_registration ::
  "primitives \<Rightarrow> bytes \<Rightarrow> exn + params \<Rightarrow> int \<Rightarrow> registration_row list
     \<Rightarrow> store_body result \<times> registration_row list"
where
  "store_registration prim sn_pubkey parsed now table =
     (case (case parsed of
              Inl e \<Rightarrow> Inl e
            | Inr p \<Rightarrow>
                (let params = p\<lparr>pubkey_ed25519 := sn_pubkey\<rparr> in
                 case check_reg_keys_sigs prim params of
                   Inl e \<Rightarrow> Inl e
                 | Inr _ \<Rightarrow> Inr params)) of
        Inl e \<Rightarrow> (if isinstance_ValueError e then (Raised e, table) else (Raised e, table))
      | Inr params \<Rightarrow>
          (let table' = upsert \<lparr>row_pubkey_ed25519 = sn_pubkey,
                                 row_pubkey_bls = pubkey_bls params,
                                 row_sig_ed25519 = sig_ed25519 params,
                                 row_sig_bls = sig_bls params,
                                 row_operator = operator params,
                                 row_contract = contract params,
                                 row_timestamp = now\<rparr> table in
           case to_checksum_address prim (AddressBytes (operator params)) of
             None \<Rightarrow> (Raised (ValueError ''to_checksum_address''), table')
           | Some op \<Rightarrow>
               (case contract params of
                  None \<Rightarrow> (Json (Store_success Solo op None params), table')
                | Some c \<Rightarrow>
                    (case to_checksum_address prim (AddressBytes c) of
                       None \<Rightarrow> (Raised (ValueError ''to_checksum_address''), table')
                     | Some c' \<Rightarrow> (Json (Store_success Contract op (Some c') params), table')))))"

text \<open>A registration of a listing: its \<^verbatim>\<open>"type"\<close> and the columns of its row.\<close>

type_synonym registration = "registration_type \<times> registration_row"

definition registration_of_row :: "registration_row \<Rightarrow> registration" where
  "registration_of_row r = (registration_kind (row_contract r), r)"





section \<open>The operator's listing: \<^verbatim>\<open>operator_registrations\<close>\<close>

record node =
  node_pubkey_ed25519 :: string
  node_active :: bool

text \<open>
  The inner loop \<^verbatim>\<open>for node in app.nodes\<close>. Its \<^verbatim>\<open>continue\<close> belongs to this loop: it
  goes on with the next node.
\<close>

fun scan_nodes :: "node list \<Rightarrow> bytes \<Rightarrow> exn + unit" where
  "scan_nodes [] sn_pubkey = Inr ()"
| "scan_nodes (node # nodes) sn_pubkey =
     (case bytes_fromhex (node_pubkey_ed25519 node) of
        Inl e \<Rightarrow> Inl e
      | Inr pk \<Rightarrow>
          if pk = sn_pubkey
          then (if node_active node then scan_nodes nodes sn_pubkey
                else scan_nodes nodes sn_pubkey)
          else scan_nodes nodes sn_pubkey)"

text \<open>The outer loop over the rows; \<open>None\<close> for the nodes when \<^verbatim>\<open>app\<close> has no \<^verbatim>\<open>nodes\<close> yet.\<close>

fun operator_rows :: "node list option \<Rightarrow> registration_row list \<Rightarrow> exn + registration list" where
  "operator_rows nodes [] = Inr []"
| "operator_rows nodes (r # rows) =
     (case (case nodes of None \<Rightarrow> Inr () | Some ns \<Rightarrow> scan_nodes ns (row_pubkey_ed25519 r)) of
        Inl e \<Rightarrow> Inl e
      | Inr _ \<Rightarrow>
          (case operator_rows nodes rows of
             Inl e \<Rightarrow> Inl e
           | Inr reg_array \<Rightarrow> Inr (registration_of_row r # reg_array)))"

definition operator_registrations ::
  "node list option \<Rightarrow> string \<Rightarrow> registration_row list \<Rightarrow> registration list result"
where
  "operator_registrations nodes op table =
     (case bytes_fromhex (drop 2 op) of
        Inl e \<Rightarrow> Raised e
      | Inr op_bytes \<Rightarrow>
          (case operator_rows nodes
                  (order_by_timestamp_desc (filter (\<lambda>r. row_operator r = op_bytes) table)) of
             Inl e \<Rightarrow> Raised e
           | Inr reg_array \<Rightarrow> Json reg_array))"

section \<open>The reserved minimum, as the specification words it\<close>

text \<open>
  Before the reserved contributor at position \<open>i\<close> (counted from 0) the stake still open
  is \<^verbatim>\<open>max_stake\<close> minus the operator's stake minus the amounts of the contributors
  before it, the spots still open are \<^verbatim>\<open>max_stakers - 1 - i\<close>, and the minimum is the
  ceiling of the quotient of the two.
\<close>

definition remaining_stake_before :: "requirement \<Rightarrow> int \<Rightarrow> (bytes \<times> int) list \<Rightarrow> nat \<Rightarrow> int" where
  "remaining_stake_before req op_stake reserved i =
     MAX_STAKE req - op_stake - sum_list (map snd (take i reserved))"

definition remaining_spots_before :: "requirement \<Rightarrow> nat \<Rightarrow> int" where
  "remaining_spots_before req i = MAX_STAKERS req - 1 - int i"

definition reserved_min :: "requirement \<Rightarrow> int \<Rightarrow> (bytes \<times> int) list \<Rightarrow> nat \<Rightarrow> int" where
  "reserved_min req op_stake reserved i =
     \<lceil>real_of_int (remaining_stake_before req op_stake reserved i)
        / real_of_int (remaining_spots_before req i)\<rceil>"

section \<open>A concrete request\<close>

text \<open>
  Stand-ins for the libraries, used where a statement is run on a concrete request:
  every 32-byte string is a point, a signature that is not 64 bytes long is refused with
  PyNaCl's \<^verbatim>\<open>ValueError\<close>, a 64-byte signature verifies when it is the first 64 bytes of
  the signed message, every address passes the checksum test, and the checksummed
  form of an address is a fixed text for 20 bytes and the text itself for a string that
  matches \<^verbatim>\<open>eth_re\<close>.
\<close>

definition example_primitives :: primitives where
  "example_primitives =
     \<lparr>crypto_core_ed25519_is_valid_point = (\<lambda>pk. True),
      verify = (\<lambda>pk msg sg.
                  if length sg \<noteq> 64
                  then NaclValueError ''The signature must be exactly 64 bytes long''
                  else if sg = take 64 msg then Verified else BadSignatureError),
      is_address = (\<lambda>v. True),
      to_checksum_address =
        (\<lambda>a. case a of
               AddressBytes b \<Rightarrow> if length b = 20 then Some ''0xChecksummed'' else None
             | AddressText t \<Rightarrow> if fullmatch_eth_re t then Some t else None)\<rparr>"

definition example_params :: params where
  "example_params =
     \<lparr>pubkey_ed25519 = replicate 32 1,
      pubkey_bls = replicate 64 2,
      sig_ed25519 = replicate 32 1 @ replicate 32 2,
      sig_bls = replicate 128 4,
      contract = Some (replicate 20 5),
      operator = replicate 20 6,
      stake = 30000000000,
      res_addr = [],
      res_stake = [],
      fee = Some ''500''\<rparr>"

text \<open>The requirement of the specification's scenario.\<close>

definition scenario_requirement :: requirement where
  "scenario_requirement = \<lparr>MAX_STAKE = 120000000000000, MAX_STAKERS = 10\<rparr>"

text \<open>A reserved contributor's address, and the request of an operator stake with the
  reserved stakes given, all of that address.\<close>

definition example_address :: string where
  "example_address = ''0xaaaaaaaaaaaaaaaaaaaaaaaaaaaaaaaaaaaaaaaa''"

definition example_address_bytes :: bytes where
  "example_address_bytes = replicate 20 170"

definition example_request :: "int \<Rightarrow> string list \<Rightarrow> params" where
  "example_request op_stake stakes =
     example_params\<lparr>stake := op_stake,
                    res_addr := replicate (length stakes) example_address,
                    res_stake := stakes\<rparr>"

text \<open>A stored solo registration of the example operator, and an active node with its key.\<close>

definition example_row :: registration_row where
  "example_row =
     \<lparr>row_pubkey_ed25519 = replicate 32 1,
      row_pubkey_bls = replicate 64 2,
      row_sig_ed25519 = replicate 32 1 @ replicate 32 2,
      row_sig_bls = replicate 128 4,
      row_operator = example_address_bytes,
      row_contract = None,
      row_timestamp = 1700000000\<rparr>"

definition example_node :: node where
  "example_node =
     \<lparr>node_pubkey_ed25519 = ''0101010101010101010101010101010101010101010101010101010101010101'',
      node_active = True\<rparr>"

text \<open>A solo request: no contract, no fee, no reserved contributors.\<close>

definition solo_request :: "int \<Rightarrow> params" where
  "solo_request op_stake = example_params\<lparr>contract := None, fee := None, stake := op_stake\<rparr>"



section \<open>Properties of the currency codec\<close>

lemma below_ten: "n < 10 \<Longrightarrow> n \<in> set [0, 1, 2, 3, 4, 5, 6, 7, 8, 9 :: nat]"
  by (simp; arith)

lemma digit_val_digit_char: "n < 10 \<Longrightarrow> digit_val (digit_char n) = n"
  using below_ten [of n] by (auto simp: digit_val_def digit_char_def)

lemma is_digit_digit_char: "n < 10 \<Longrightarrow> is_digit (digit_char n)"
  using below_ten [of n] by (auto simp: is_digit_def digit_char_def)

lemma str_nat_digits: "list_all is_digit (str_nat n)"
proof (induction n rule: str_nat.induct)
  case (1 n)
  show ?case
  proof (cases "n < 10")
    case True
    then show ?thesis by (simp add: str_nat.simps [of n] is_digit_digit_char)
  next
    case False
    with 1 show ?thesis by (simp add: str_nat.simps [of n] is_digit_digit_char)
  qed
qed

lemma str_nat_nonempty: "str_nat n \<noteq> []"
  by (simp add: str_nat.simps [of n])

lemma nat_of_digits_snoc: "nat_of_digits (s @ [c]) = 10 * nat_of_digits s + digit_val c"
  by (simp add: nat_of_digits_def)

lemma nat_of_digits_str_nat: "nat_of_digits (str_nat n) = n"
proof (induction n rule: str_nat.induct)
  case (1 n)
  show ?case
  proof (cases "n < 10")
    case True
    then show ?thesis by (simp add: str_nat.simps [of n] nat_of_digits_def digit_val_digit_char)
  next
    case False
    with 1 show ?thesis
      by (simp add: str_nat.simps [of n] nat_of_digits_snoc digit_val_digit_char)
  qed
qed

lemma length_str_nat: "n < 10 ^ d \<Longrightarrow> 0 < d \<Longrightarrow> length (str_nat n) \<le> d"
proof (induction n arbitrary: d rule: str_nat.induct)
  case (1 n)
  show ?case
  proof (cases "n < 10")
    case True
    with 1 show ?thesis by (simp add: str_nat.simps [of n])
  next
    case False
    obtain e where e: "d = Suc e" using 1(3) by (cases d) auto
    from False 1(2) e have "0 < e" by (cases e) auto
    moreover from 1(2) e have "n div 10 < 10 ^ e" by (simp add: less_mult_imp_div_less mult.commute)
    ultimately have "length (str_nat (n div 10)) \<le> e" using 1(1) False by simp
    with e False show ?thesis by (simp add: str_nat.simps [of n])
  qed
qed

lemma nat_of_digits_zeros: "nat_of_digits (replicate k CHR ''0'' @ s) = nat_of_digits s"
  by (induction k) (simp_all add: nat_of_digits_def digit_val_def)

lemma nat_of_digits_zero_padded: "nat_of_digits (zero_padded w n) = n"
  by (simp add: zero_padded_def nat_of_digits_zeros nat_of_digits_str_nat)

lemma is_digit_zero: "is_digit CHR ''0''"
  by (simp add: is_digit_def)

lemma replicate_zero_digits: "list_all is_digit (replicate k CHR ''0'')"
  by (induction k) (simp_all add: is_digit_zero)

lemma zero_padded_digits: "list_all is_digit (zero_padded w n)"
  by (simp add: zero_padded_def str_nat_digits replicate_zero_digits)

lemma length_zero_padded: "n < 10 ^ d \<Longrightarrow> 0 < d \<Longrightarrow> length (zero_padded d n) = d"
  using length_str_nat [of n d] by (simp add: zero_padded_def)

lemma rstrip_decompose: "s = rstrip c s @ replicate (length s - length (rstrip c s)) c"
proof -
  let ?P = "\<lambda>x. x = c"
  have tw: "takeWhile ?P (rev s) = replicate (length (takeWhile ?P (rev s))) c"
    by (rule replicate_length_same [symmetric]) (auto dest: set_takeWhileD)
  have "s = rev (takeWhile ?P (rev s) @ dropWhile ?P (rev s))"
    by (simp only: takeWhile_dropWhile_id rev_rev_ident)
  then have s: "s = rstrip c s @ rev (takeWhile ?P (rev s))"
    by (simp only: rev_append rstrip_def)
  have len: "length s - length (rstrip c s) = length (takeWhile ?P (rev s))"
  proof -
    have "length (rev s) = length (takeWhile ?P (rev s)) + length (dropWhile ?P (rev s))"
      by (metis length_append takeWhile_dropWhile_id)
    then show ?thesis by (simp add: rstrip_def)
  qed
  have "rev (takeWhile ?P (rev s)) = replicate (length (takeWhile ?P (rev s))) c"
    using tw by (metis rev_replicate)
  with s len show ?thesis by simp
qed

lemma ljust_rstrip: "ljust (length s) c (rstrip c s) = s"
  using rstrip_decompose [of s c] by (simp add: ljust_def)

lemma length_rstrip: "length (rstrip c s) \<le> length s"
  by (simp add: rstrip_def) (metis length_dropWhile_le length_rev)

lemma rstrip_digits: "list_all is_digit s \<Longrightarrow> list_all is_digit (rstrip c s)"
  by (auto simp: rstrip_def list_all_iff dest: set_dropWhileD)

lemma rstrip_nonzero: "nat_of_digits s \<noteq> 0 \<Longrightarrow> rstrip CHR ''0'' s \<noteq> []"
proof
  assume nz: "nat_of_digits s \<noteq> 0" and e: "rstrip CHR ''0'' s = []"
  from rstrip_decompose [of s "CHR ''0''"] e have "s = replicate (length s) CHR ''0'' @ []" by simp
  then have "nat_of_digits s = nat_of_digits []" by (metis nat_of_digits_zeros)
  with nz show False by (simp add: nat_of_digits_def)
qed

lemma rstrip_Cons: "x \<noteq> c \<Longrightarrow> rstrip c (x # s) = x # rstrip c s"
  by (simp add: rstrip_def dropWhile_append)

lemma str_split_no_sep: "c \<notin> set a \<Longrightarrow> str_split c a = [a]"
  by (induction a) auto

lemma str_split_sep: "c \<notin> set a \<Longrightarrow> str_split c (a @ c # b) = a # str_split c b"
  by (induction a) auto

lemma point_not_digit: "\<not> is_digit CHR ''.''"
  by (simp add: is_digit_def)

lemma digits_no_point: "list_all is_digit s \<Longrightarrow> CHR ''.'' \<notin> set s"
  using point_not_digit by (auto simp: list_all_iff)

lemma py_int_digits: "list_all is_digit s \<Longrightarrow> s \<noteq> [] \<Longrightarrow> py_int s = Inr (int (nat_of_digits s))"
  by (simp add: py_int_def fullmatch_digits_def)

lemma ljust_digits: "list_all is_digit t \<Longrightarrow> list_all is_digit (ljust d CHR ''0'' t)"
  by (simp add: ljust_def replicate_zero_digits)

lemma parse_currency_whole:
  assumes "str_split CHR ''.'' v = [a]" and "fullmatch_digits a"
  shows "parse_currency k v d = Inr (int (nat_of_digits a) * 10 ^ d)"
  using assms by (simp add: parse_currency_def py_int_def)

lemma parse_currency_fraction:
  assumes "str_split CHR ''.'' v = [a, t]" and "fullmatch_digits a" and "fullmatch_digits t"
    and "length t \<le> d"
  shows "parse_currency k v d
           = Inr (int (nat_of_digits a) * 10 ^ d + int (nat_of_digits (ljust d CHR ''0'' t)))"
proof -
  have lj: "fullmatch_digits (ljust d CHR ''0'' t)"
    using assms(3) by (simp add: fullmatch_digits_def ljust_digits) (simp add: ljust_def)
  have "parse_currency k v d =
          (case py_int a of Inl e \<Rightarrow> Inl e
           | Inr whole \<Rightarrow> (case py_int (ljust d CHR ''0'' t) of Inl e \<Rightarrow> Inl e
                            | Inr frac_units \<Rightarrow> Inr (whole * 10 ^ d + frac_units)))"
  proof (cases "length t < d")
    case True
    then show ?thesis
      unfolding parse_currency_def Let_def assms(1) using assms(2,3)
      by (simp add: nth_Cons' cong: sum.case_cong)
  next
    case False
    with assms(4) have "length t = d" by simp
    then have "ljust d CHR ''0'' t = t" by (simp add: ljust_def)
    then show ?thesis
      unfolding parse_currency_def Let_def assms(1) using assms(2,3) \<open>length t = d\<close>
      by (simp add: nth_Cons' cong: sum.case_cong)
  qed
  then show ?thesis using assms(2) lj by (simp add: py_int_def)
qed

text \<open>
  Claim C6. The codec round-trips: for every atomic amount \<open>x \<ge> 0\<close> and every number of
  decimals \<open>d\<close>, parsing the text that \<open>format_currency\<close> produces for \<open>x\<close> with the same
  \<open>d\<close> succeeds and gives back exactly \<open>x\<close>.
\<close>

theorem parse_format_currency:
  assumes "0 \<le> x"
  shows "parse_currency k (format_currency x d) d = Inr x"
proof -
  define b :: int where "b = 10 ^ d"
  define w where "w = nat (x div b)"
  define f where "f = nat (x mod b)"
  have bpos: "0 < b" by (simp add: b_def)
  have w: "x div b = int w" using assms bpos by (simp add: w_def pos_imp_zdiv_nonneg_iff)
  have f: "x mod b = int f" using bpos by (simp add: f_def)
  have "x = x div b * b + x mod b" by simp
  then have x: "x = int w * b + int f" by (simp only: w f)
  have ws: "str_int (x div b) = str_nat w" by (simp add: str_int_def w)
  have wd: "list_all is_digit (str_nat w)" by (rule str_nat_digits)
  have wp: "CHR ''.'' \<notin> set (str_nat w)" by (rule digits_no_point [OF wd])
  have wm: "fullmatch_digits (str_nat w)"
    by (simp add: fullmatch_digits_def str_nat_digits str_nat_nonempty)
  show ?thesis
  proof (cases "f = 0")
    case True
    have fmt: "format_currency x d = str_nat w"
      unfolding format_currency_def Let_def b_def [symmetric] ws using f True by simp
    have sp: "str_split CHR ''.'' (format_currency x d) = [str_nat w]"
      unfolding fmt by (rule str_split_no_sep [OF wp])
    show ?thesis
      unfolding parse_currency_whole [OF sp wm] nat_of_digits_str_nat
      using x True by (simp add: b_def)
  next
    case False
    have dpos: "0 < d"
    proof (rule ccontr)
      assume "\<not> 0 < d"
      then have "b = 1" by (simp add: b_def)
      with f False show False by simp
    qed
    have flt: "f < 10 ^ d"
    proof -
      have "int f < b" using f pos_mod_bound [OF bpos, of x] by linarith
      then have "int f < int (10 ^ d)" by (simp only: b_def of_nat_power of_nat_numeral)
      then show ?thesis by (simp only: of_nat_less_iff)
    qed
    define z where "z = zero_padded d f"
    define t where "t = rstrip CHR ''0'' z"
    have zl: "length z = d" unfolding z_def by (rule length_zero_padded [OF flt dpos])
    have zd: "list_all is_digit z" unfolding z_def by (rule zero_padded_digits)
    have zv: "nat_of_digits z = f" unfolding z_def by (rule nat_of_digits_zero_padded)
    have tne: "t \<noteq> []" unfolding t_def using zv False by (intro rstrip_nonzero) simp
    have td: "list_all is_digit t" unfolding t_def by (rule rstrip_digits [OF zd])
    have tl: "length t \<le> d" unfolding t_def using length_rstrip [of "CHR ''0''" z] zl by simp
    have tj: "ljust d CHR ''0'' t = z" unfolding t_def using ljust_rstrip [of z "CHR ''0''"] zl by simp
    have tp: "CHR ''.'' \<notin> set t" by (rule digits_no_point [OF td])
    have tm: "fullmatch_digits t" using tne td by (simp add: fullmatch_digits_def)
    have fmt: "format_currency x d = str_nat w @ CHR ''.'' # t"
      unfolding format_currency_def Let_def b_def [symmetric] ws t_def z_def
      using f False by (simp add: rstrip_Cons)
    have sp: "str_split CHR ''.'' (format_currency x d) = [str_nat w, t]"
      unfolding fmt by (simp add: str_split_sep [OF wp] str_split_no_sep [OF tp])
    show ?thesis
      unfolding parse_currency_fraction [OF sp wm tm tl] tj zv nat_of_digits_str_nat
      using x by (simp add: b_def)
  qed
qed

theorem parse_format_currency_witness:
  "(0::int) \<le> 1234500000
   \<and> parse_currency ''stake'' (format_currency 1234500000 9) 9 = Inr 1234500000"
  using parse_format_currency [of 1234500000 "''stake''" 9] by simp

section \<open>Properties of \<^verbatim>\<open>check_stakes\<close>\<close>

lemma check_stakes_loop_iff:
  "(\<forall>j < length ss. i + j \<noteq> 0 \<longrightarrow> sp \<noteq> int j) \<Longrightarrow>
   (check_stakes_loop i ss rs sp = Inr ()) =
   (\<forall>j < length ss. (rs - sum_list (take j ss)) div (if i + j = 0 then 4 else sp - int j) \<le> ss ! j)"
proof (induction ss arbitrary: i rs sp)
  case Nil
  then show ?case by simp
next
  case (Cons s ss)
  have nz: "(if i = 0 then 4 else sp) \<noteq> 0" using Cons.prems by auto
  have pre: "\<forall>j < length ss. (i + 1) + j \<noteq> 0 \<longrightarrow> sp - 1 \<noteq> int j"
    using Cons.prems by fastforce
  have IH: "(check_stakes_loop (i + 1) ss (rs - s) (sp - 1) = Inr ()) =
        (\<forall>j < length ss. (rs - s - sum_list (take j ss)) div (if (i + 1) + j = 0 then 4 else sp - 1 - int j) \<le> ss ! j)"
    by (rule Cons.IH [OF pre])
  have shift: "(\<forall>j < length (s # ss). (rs - sum_list (take j (s # ss))) div (if i + j = 0 then 4 else sp - int j) \<le> (s # ss) ! j)
     = (rs div (if i = 0 then 4 else sp) \<le> s \<and>
        (\<forall>j < length ss. (rs - s - sum_list (take j ss)) div (if (i + 1) + j = 0 then 4 else sp - 1 - int j) \<le> ss ! j))"
    by (simp add: All_less_Suc2 algebra_simps)
  show ?case
    unfolding shift using nz IH by (simp add: floordiv_def)
qed

lemma check_stakes_loop_no_zero_division:
  "(\<forall>j < length ss. i + j \<noteq> 0 \<longrightarrow> sp \<noteq> int j) \<Longrightarrow>
   check_stakes_loop i ss rs sp \<noteq> Inl ZeroDivisionError"
proof (induction ss arbitrary: i rs sp)
  case Nil
  then show ?case by simp
next
  case (Cons s ss)
  have nz: "(if i = 0 then 4 else sp) \<noteq> 0" using Cons.prems by auto
  have pre: "\<forall>j < length ss. (i + 1) + j \<noteq> 0 \<longrightarrow> sp - 1 \<noteq> int j"
    using Cons.prems by fastforce
  show ?case using nz Cons.IH [OF pre] by (simp add: floordiv_def)
qed

lemma remdups_length_distinct: "(length (remdups xs) = length xs) = distinct xs"
  by (metis distinct_remdups length_remdups_eq remdups_id_iff_distinct)

lemma check_stakes_accepts_iff:
  assumes "length stakers = length stakes" and "1 \<le> length stakers"
    and "int (length stakers) \<le> max_stakers" and "sum_list stakes \<le> total_stake"
    and "distinct stakers"
  shows "(check_stakes stakes total_stake stakers max_stakers = Inr ())
           = meets_proportional_rule stakes total_stake max_stakers"
proof -
  have pre: "\<forall>j < length stakes. 0 + j \<noteq> 0 \<longrightarrow> max_stakers \<noteq> int j"
    using assms(1,3) by auto
  have rd: "length (remdups stakers) = length stakers"
    using assms(5) by (simp add: remdups_length_distinct)
  have "check_stakes stakes total_stake stakers max_stakers
          = check_stakes_loop 0 stakes total_stake max_stakers"
    unfolding check_stakes_def using assms(1-4) rd by auto
  moreover have "meets_proportional_rule stakes total_stake max_stakers
      = (\<forall>j < length stakes. (total_stake - sum_list (take j stakes))
            div (if 0 + j = 0 then 4 else max_stakers - int j) \<le> stakes ! j)"
    unfolding meets_proportional_rule_def required_min_def list_all_iff by auto
  ultimately show ?thesis
    using check_stakes_loop_iff [OF pre, of total_stake] by simp
qed

text \<open>
  The pre-checks come in the order of the source, each with a message of its own.
\<close>

lemma check_stakes_length_mismatch:
  "length stakers \<noteq> length stakes \<Longrightarrow>
   check_stakes stakes total_stake stakers max_stakers
     = Inl (ValueError ''s and S have different lengths'')"
  by (simp add: check_stakes_def)

lemma check_stakes_empty:
  "length stakers = length stakes \<Longrightarrow> length stakers < 1 \<Longrightarrow>
   check_stakes stakes total_stake stakers max_stakers
     = Inl (ValueError ''at least one s/S value pair is required'')"
  by (simp add: check_stakes_def)

lemma check_stakes_too_many:
  "length stakers = length stakes \<Longrightarrow> 1 \<le> length stakers \<Longrightarrow>
   max_stakers < int (length stakers) \<Longrightarrow>
   check_stakes stakes total_stake stakers max_stakers
     = Inl (ValueError (''too many stakers ('' @ str_nat (length stakers) @ '' > ''
                          @ str_int max_stakers @ '')''))"
  by (auto simp: check_stakes_def)

lemma check_stakes_total_too_large:
  "length stakers = length stakes \<Longrightarrow> 1 \<le> length stakers \<Longrightarrow>
   int (length stakers) \<le> max_stakers \<Longrightarrow> total_stake < sum_list stakes \<Longrightarrow>
   check_stakes stakes total_stake stakers max_stakers
     = Inl (ValueError (''total stake is too large ('' @ str_int (sum_list stakes)
                          @ '' > total)''))"
  by (auto simp: check_stakes_def)

lemma check_stakes_duplicate:
  "length stakers = length stakes \<Longrightarrow> 1 \<le> length stakers \<Longrightarrow>
   int (length stakers) \<le> max_stakers \<Longrightarrow> sum_list stakes \<le> total_stake \<Longrightarrow>
   \<not> distinct stakers \<Longrightarrow>
   check_stakes stakes total_stake stakers max_stakers
     = Inl (ValueError ''duplicate staking addresses in staker list'')"
  using remdups_length_distinct [of stakers] by (auto simp: check_stakes_def)

text \<open>
  A plan of non-negative amounts that \<open>check_stakes\<close> accepts can be completed after each
  of its prefixes: the stake still open is not negative, it is 0 when no spot is open
  and the prefix holds more than the operator (whose minimum is a quarter of the total,
  whatever the number of spots), and when a spot is open one more staker who supplies
  the stake still open is accepted.
\<close>

lemma check_stakes_accepted_rule:
  assumes "check_stakes stakes total_stake stakers max_stakers = Inr ()"
  shows "length stakers = length stakes" and "1 \<le> length stakes"
    and "int (length stakes) \<le> max_stakers" and "sum_list stakes \<le> total_stake"
    and "distinct stakers"
    and "\<forall>j < length stakes. required_min stakes total_stake max_stakers j \<le> stakes ! j"
proof -
  from assms show l: "length stakers = length stakes"
    by (auto simp: check_stakes_def split: if_splits)
  from assms l have "stakes \<noteq> []"
    by (auto simp: check_stakes_def split: if_splits)
  then show n: "1 \<le> length stakes"
    by (cases stakes) simp_all
  from assms l show m: "int (length stakes) \<le> max_stakers"
    by (auto simp: check_stakes_def split: if_splits)
  from assms show s: "sum_list stakes \<le> total_stake"
    by (auto simp: check_stakes_def split: if_splits)
  from n l have n': "1 \<le> length stakers" by simp
  from m l have m': "int (length stakers) \<le> max_stakers" by simp
  show d: "distinct stakers"
  proof (rule ccontr)
    assume "\<not> distinct stakers"
    from check_stakes_duplicate [OF l n' m' s this] assms show False by simp
  qed
  from check_stakes_accepts_iff [OF l n' m' s d] assms
  show "\<forall>j < length stakes. required_min stakes total_stake max_stakers j \<le> stakes ! j"
    by (simp add: meets_proportional_rule_def list_all_iff)
qed

lemma sum_list_take_le:
  "list_all (\<lambda>s. 0 \<le> s) xs \<Longrightarrow> sum_list (take i xs) \<le> sum_list xs" for xs :: "int list"
proof (induction xs arbitrary: i)
  case Nil
  then show ?case by simp
next
  case (Cons x xs)
  show ?case
  proof (cases i)
    case 0
    have "0 \<le> sum_list (x # xs)" using Cons.prems by (intro sum_list_nonneg) (auto simp: list_all_iff)
    with 0 show ?thesis by simp
  next
    case (Suc j)
    then show ?thesis using Cons.IH [of j] Cons.prems by simp
  qed
qed

lemma check_stakes_completable:
  assumes acc: "check_stakes stakes total_stake stakers max_stakers = Inr ()"
    and nonneg: "list_all (\<lambda>s. 0 \<le> s) stakes"
    and i: "i < length stakes"
  defines "open_stake \<equiv> total_stake - sum_list (take (i + 1) stakes)"
  defines "open_spots \<equiv> max_stakers - int (i + 1)"
  shows "0 \<le> open_stake" and "0 \<le> open_spots"
    and "open_spots = 0 \<Longrightarrow> 0 < i \<Longrightarrow> open_stake = 0"
    and "1 \<le> open_spots \<Longrightarrow> staker \<notin> set stakers \<Longrightarrow>
         check_stakes (take (i + 1) stakes @ [open_stake]) total_stake
           (take (i + 1) stakers @ [staker]) max_stakers = Inr ()"
proof -
  note r = check_stakes_accepted_rule [OF acc]
  have "sum_list (take (i + 1) stakes) \<le> sum_list stakes" by (rule sum_list_take_le [OF nonneg])
  with r(4) show R: "0 \<le> open_stake" by (simp add: open_stake_def)
  show S: "0 \<le> open_spots" using r(3) i by (simp add: open_spots_def)
  {
    assume z: "open_spots = 0" and ipos: "0 < i"
    from r(6) i have "required_min stakes total_stake max_stakers i \<le> stakes ! i" by simp
    moreover have "max_stakers - int i = 1" using z by (simp add: open_spots_def)
    ultimately have "total_stake - sum_list (take i stakes) \<le> stakes ! i"
      using ipos by (simp add: required_min_def)
    moreover have "sum_list (take (i + 1) stakes) = sum_list (take i stakes) + stakes ! i"
      using i by (simp add: take_Suc_conv_app_nth)
    ultimately have "open_stake \<le> 0" by (simp add: open_stake_def)
    with R show "open_stake = 0" by simp
  }
  {
    assume sp: "1 \<le> open_spots" and fresh: "staker \<notin> set stakers"
    let ?stakes = "take (i + 1) stakes @ [open_stake]"
    let ?stakers = "take (i + 1) stakers @ [staker]"
    have len: "length (take (i + 1) stakes) = i + 1" using i by simp
    have l: "length ?stakers = length ?stakes" using r(1) by simp
    have n: "1 \<le> length ?stakers" by simp
    have m: "int (length ?stakers) \<le> max_stakers"
      using sp r(1) i by (simp add: open_spots_def)
    have s: "sum_list ?stakes \<le> total_stake" by (simp add: open_stake_def)
    have d: "distinct ?stakers"
      using r(5) fresh by (auto dest: in_set_takeD)
    have rule: "meets_proportional_rule ?stakes total_stake max_stakers"
      unfolding meets_proportional_rule_def list_all_iff
    proof
      fix j assume "j \<in> set [0 ..< length ?stakes]"
      then have j: "j \<le> i + 1" using len by auto
      show "required_min ?stakes total_stake max_stakers j \<le> ?stakes ! j"
      proof (cases "j = i + 1")
        case True
        have "open_stake div open_spots \<le> open_stake"
          using R sp by (metis div_by_1 zdiv_mono2 zero_less_one)
        then show ?thesis
          using True len by (simp add: required_min_def nth_append open_stake_def open_spots_def)
      next
        case False
        with j have ji: "j < i + 1" by simp
        then have jl: "j < length stakes" using i by simp
        have "take j ?stakes = take j stakes" using ji len by (simp add: min_absorb2)
        moreover have "?stakes ! j = stakes ! j" using ji len by (simp add: nth_append)
        ultimately show ?thesis
          using r(6) jl by (simp add: required_min_def)
      qed
    qed
    show "check_stakes ?stakes total_stake ?stakers max_stakers = Inr ()"
      using check_stakes_accepts_iff [OF l n m s d] rule by simp
  }
qed

text \<open>
  Claim C3. After the pre-checks \<open>check_stakes\<close> accepts exactly the plans that meet the
  proportional rule (\<open>check_stakes_accepts_iff\<close>), but a shortfall does not identify its
  index or its minimum: the message is a plain string literal, so a shortfall of the
  operator at index 0 (minimum 25) and one of the second staker at index 1 (minimum 8)
  raise the very same exception.
\<close>

theorem check_stakes_shortfall_message:
  "check_stakes [0] 100 [''a''] 10
     = Inl (ValueError ''reserved stake [i] ({stakers[i]}) is too low ({stakes[i]} < {reqd})'')
   \<and> check_stakes [25, 0] 100 [''a'', ''b''] 10
     = Inl (ValueError ''reserved stake [i] ({stakers[i]}) is too low ({stakes[i]} < {reqd})'')
   \<and> required_min [0] 100 10 0 = 25 \<and> required_min [25, 0] 100 10 1 = 8"
  by (simp add: check_stakes_def floordiv_def required_min_def)

section \<open>Properties of \<^verbatim>\<open>check_reg_keys_sigs\<close>\<close>

text \<open>
  Claim C7. \<open>check_reg_keys_sigs\<close> returns exactly when every check passes, and otherwise
  raises at the first check that fails, in this order: the Ed25519 pubkey (32 bytes and a
  valid point), the BLS pubkey (64 bytes), the operator address (20 bytes), the contract
  address if present (20 bytes), and the Ed25519 signature, verified under the Ed25519
  pubkey over the Ed25519 pubkey bytes followed by the BLS pubkey bytes. The first four
  raise \<^verbatim>\<open>SNSignatureValidationError\<close>, each with a message of its own. The last raises it
  only when the library raises \<^verbatim>\<open>BadSignatureError\<close>: the length of the signature is never
  checked, unlike the lengths of the other fields, and the handler catches nothing else,
  so the \<^verbatim>\<open>ValueError\<close> with which the library refuses a signature that is not 64 bytes long
  escapes as it is, in place of the error for an invalid signature.
\<close>

theorem check_reg_keys_sigs_checks:
  fixes prim :: primitives and p :: params
  defines "pk \<equiv> pubkey_ed25519 p"
  defines "key_ok \<equiv> length pk = 32 \<and> crypto_core_ed25519_is_valid_point prim pk"
  defines "bls_ok \<equiv> length (pubkey_bls p) = 64"
  defines "op_ok \<equiv> length (operator p) = 20"
  defines "contract_ok \<equiv> (case contract p of None \<Rightarrow> True | Some c \<Rightarrow> length c = 20)"
  defines "outcome \<equiv> verify prim pk (pk @ pubkey_bls p) (sig_ed25519 p)"
  shows "(check_reg_keys_sigs prim p = Inr ())
           = (key_ok \<and> bls_ok \<and> op_ok \<and> contract_ok \<and> outcome = Verified)
       \<and> (check_reg_keys_sigs prim p = Inl (SNSignatureValidationError ''Ed25519 pubkey is invalid''))
           = (\<not> key_ok)
       \<and> (check_reg_keys_sigs prim p = Inl (SNSignatureValidationError ''BLS pubkey is invalid''))
           = (key_ok \<and> \<not> bls_ok)
       \<and> (check_reg_keys_sigs prim p = Inl (SNSignatureValidationError ''operator address is invalid''))
           = (key_ok \<and> bls_ok \<and> \<not> op_ok)
       \<and> (check_reg_keys_sigs prim p = Inl (SNSignatureValidationError ''contract address is invalid''))
           = (key_ok \<and> bls_ok \<and> op_ok \<and> \<not> contract_ok)
       \<and> (check_reg_keys_sigs prim p = Inl (SNSignatureValidationError ''Ed25519 signature is invalid''))
           = (key_ok \<and> bls_ok \<and> op_ok \<and> contract_ok \<and> outcome = BadSignatureError)
       \<and> (check_reg_keys_sigs prim p = Inl (ValueError msg))
           = (key_ok \<and> bls_ok \<and> op_ok \<and> contract_ok \<and> outcome = NaclValueError msg)"
  unfolding check_reg_keys_sigs_def Let_def key_ok_def bls_ok_def op_ok_def contract_ok_def
    outcome_def pk_def
  by (auto split: option.split verify_outcome.split)

theorem check_reg_keys_sigs_checks_witness:
  "check_reg_keys_sigs example_primitives example_params = Inr ()
   \<and> check_reg_keys_sigs example_primitives (example_params\<lparr>sig_ed25519 := replicate 64 0\<rparr>)
       = Inl (SNSignatureValidationError ''Ed25519 signature is invalid'')
   \<and> check_reg_keys_sigs example_primitives
         (example_params\<lparr>pubkey_bls := [], operator := [], sig_ed25519 := []\<rparr>)
       = Inl (SNSignatureValidationError ''BLS pubkey is invalid'')
   \<and> check_reg_keys_sigs example_primitives (example_params\<lparr>sig_ed25519 := replicate 63 0\<rparr>)
       = Inl (ValueError ''The signature must be exactly 64 bytes long'')"
proof (intro conjI)
  show "check_reg_keys_sigs example_primitives example_params = Inr ()"
    using check_reg_keys_sigs_checks [of example_primitives example_params]
    by (simp add: example_primitives_def example_params_def)
  show "check_reg_keys_sigs example_primitives (example_params\<lparr>sig_ed25519 := replicate 64 0\<rparr>)
       = Inl (SNSignatureValidationError ''Ed25519 signature is invalid'')"
    using check_reg_keys_sigs_checks
      [of example_primitives "example_params\<lparr>sig_ed25519 := replicate 64 0\<rparr>"]
    by (simp add: example_primitives_def example_params_def replicate_append_same numeral_eq_Suc)
  show "check_reg_keys_sigs example_primitives
         (example_params\<lparr>pubkey_bls := [], operator := [], sig_ed25519 := []\<rparr>)
       = Inl (SNSignatureValidationError ''BLS pubkey is invalid'')"
    using check_reg_keys_sigs_checks
      [of example_primitives "example_params\<lparr>pubkey_bls := [], operator := [], sig_ed25519 := []\<rparr>"]
    by (simp add: example_primitives_def example_params_def)
  show "check_reg_keys_sigs example_primitives (example_params\<lparr>sig_ed25519 := replicate 63 0\<rparr>)
       = Inl (ValueError ''The signature must be exactly 64 bytes long'')"
    using check_reg_keys_sigs_checks
      [of example_primitives "example_params\<lparr>sig_ed25519 := replicate 63 0\<rparr>"
        "''The signature must be exactly 64 bytes long''"]
    by (simp add: example_primitives_def example_params_def)
qed

text \<open>
  Neither endpoint turns that \<^verbatim>\<open>ValueError\<close> into an error of its own: \<^verbatim>\<open>/validate\<close> catches
  \<^verbatim>\<open>SNSignatureValidationError\<close> only, and \<^verbatim>\<open>/store\<close> re-raises what it catches.
\<close>

lemma validate_registration_signature_refused:
  "check_reg_keys_sigs prim p = Inl (ValueError msg) \<Longrightarrow>
   validate_registration prim req (Inr p) = Raised (ValueError msg)"
  by (simp add: validate_registration_def)

lemma store_registration_signature_refused:
  "check_reg_keys_sigs prim (p\<lparr>pubkey_ed25519 := sn_pubkey\<rparr>) = Inl (ValueError msg) \<Longrightarrow>
   store_registration prim sn_pubkey (Inr p) now table = (Raised (ValueError msg), table)"
  by (simp add: store_registration_def)

section \<open>Properties of \<^verbatim>\<open>/validate\<close>\<close>

subsection \<open>The loop over the reserved contributors\<close>

lemma ceiling_division_int: "0 < b \<Longrightarrow> (a + b - 1) div b = - (- a div b)" for a b :: int
proof -
  assume b: "0 < b"
  define q where "q = a div b"
  define r where "r = a mod b"
  have a: "a = q * b + r" by (simp add: q_def r_def)
  have r: "0 \<le> r" "r < b" using b by (simp_all add: r_def)
  show ?thesis
  proof (cases "r = 0")
    case True
    have "a + b - 1 = (b - 1) + q * b" using a True by simp
    then have "(a + b - 1) div b = ((b - 1) + q * b) div b" by (rule arg_cong)
    also have "\<dots> = q + (b - 1) div b" using b by (intro div_mult_self1) simp
    also have "(b - 1) div b = 0" using b by (simp add: div_pos_pos_trivial)
    finally have "(a + b - 1) div b = q" by simp
    moreover have "- a div b = - q"
      using True [unfolded r_def] b by (simp add: zdiv_zminus1_eq_if q_def)
    ultimately show ?thesis by simp
  next
    case False
    have "a + b - 1 = (r - 1) + (q + 1) * b" using a by (simp add: algebra_simps)
    then have "(a + b - 1) div b = ((r - 1) + (q + 1) * b) div b" by (rule arg_cong)
    also have "\<dots> = (q + 1) + (r - 1) div b" using b by (intro div_mult_self1) simp
    also have "(r - 1) div b = 0" using r False by (simp add: div_pos_pos_trivial)
    finally have "(a + b - 1) div b = q + 1" by simp
    moreover have "- a div b = - q - 1"
      using False [unfolded r_def] b by (simp add: zdiv_zminus1_eq_if q_def)
    ultimately show ?thesis by simp
  qed
qed

lemma ceiling_division: "0 < b \<Longrightarrow> (a + b - 1) div b = \<lceil>real_of_int a / real_of_int b\<rceil>" for a b :: int
  by (simp only: ceiling_division_int ceiling_divide_eq_div)


lemma reserved_loop_append:
  "reserved_loop prim i (xs @ ys) rs sp =
     (case reserved_loop prim i xs rs sp of
        Inl r \<Rightarrow> Inl r
      | Inr (r, s) \<Rightarrow> reserved_loop prim (i + length xs) ys r s)"
  by (induction xs arbitrary: i rs sp) (auto split: sum.splits)

lemma reserved_loop_accepts_iff:
  "int (length xs) \<le> sp \<Longrightarrow>
   (reserved_loop prim i xs rs sp = Inr (r, s)) =
   ((\<forall>j < length xs. (rs - sum_list (map snd (take j xs)) + (sp - int j) - 1) div (sp - int j)
                        \<le> snd (xs ! j))
    \<and> r = rs - sum_list (map snd xs) \<and> s = sp - int (length xs))"
proof (induction xs arbitrary: i rs sp)
  case Nil
  then show ?case by auto
next
  case (Cons x xs)
  obtain addr amt where x: "x = (addr, amt)" by (cases x)
  have nz: "sp \<noteq> 0" using Cons.prems by auto
  have pre: "int (length xs) \<le> sp - 1" using Cons.prems by simp
  note IH = Cons.IH [OF pre, of "i + 1" "rs - amt"]
  have shift: "(\<forall>j < length (x # xs). (rs - sum_list (map snd (take j (x # xs))) + (sp - int j) - 1) div (sp - int j) \<le> snd ((x # xs) ! j))
     = ((rs + sp - 1) div sp \<le> amt \<and>
        (\<forall>j < length xs. (rs - amt - sum_list (map snd (take j xs)) + (sp - 1 - int j) - 1) div (sp - 1 - int j) \<le> snd (xs ! j)))"
    by (simp add: All_less_Suc2 x algebra_simps)
  show ?case
    unfolding shift using nz IH
    by (auto simp: x floordiv_def eth_format_def split: option.splits)
qed

lemma reserved_loop_first_shortfall:
  "int (length xs) \<le> sp \<Longrightarrow> k < length xs \<Longrightarrow>
   (\<forall>j < k. (rs - sum_list (map snd (take j xs)) + (sp - int j) - 1) div (sp - int j) \<le> snd (xs ! j)) \<Longrightarrow>
   snd (xs ! k) < (rs - sum_list (map snd (take k xs)) + (sp - int k) - 1) div (sp - int k) \<Longrightarrow>
   reserved_loop prim i xs rs sp =
     Inl (case eth_format prim (AddressBytes (fst (xs ! k))) of
            Inl e \<Rightarrow> Raised e
          | Inr a \<Rightarrow> Json (Error (Insufficient_res_stake (i + k + 1) a
                   ((rs - sum_list (map snd (take k xs)) + (sp - int k) - 1) div (sp - int k)))))"
proof (induction xs arbitrary: i k rs sp)
  case Nil
  then show ?case by simp
next
  case (Cons x xs)
  obtain addr amt where x: "x = (addr, amt)" by (cases x)
  have nz: "sp \<noteq> 0" using Cons.prems by auto
  show ?case
  proof (cases k)
    case 0
    with Cons.prems nz show ?thesis
      by (simp add: x floordiv_def split: sum.splits)
  next
    case (Suc k')
    have pre: "int (length xs) \<le> sp - 1" using Cons.prems by simp
    have k': "k' < length xs" using Cons.prems Suc by simp
    have head: "(rs + sp - 1) div sp \<le> amt" using Cons.prems(3) Suc x by force
    have before: "\<forall>j < k'. (rs - amt - sum_list (map snd (take j xs)) + (sp - 1 - int j) - 1) div (sp - 1 - int j) \<le> snd (xs ! j)"
    proof (intro allI impI)
      fix j assume "j < k'"
      then have "Suc j < k" using Suc by simp
      with Cons.prems(3) have "(rs - sum_list (map snd (take (Suc j) (x # xs))) + (sp - int (Suc j)) - 1) div (sp - int (Suc j)) \<le> snd ((x # xs) ! Suc j)"
        by blast
      then show "(rs - amt - sum_list (map snd (take j xs)) + (sp - 1 - int j) - 1) div (sp - 1 - int j) \<le> snd (xs ! j)"
        by (simp add: x algebra_simps)
    qed
    have short: "snd (xs ! k') < (rs - amt - sum_list (map snd (take k' xs)) + (sp - 1 - int k') - 1) div (sp - 1 - int k')"
      using Cons.prems(4) Suc by (simp add: x algebra_simps)
    have "reserved_loop prim (i + 1) xs (rs - amt) (sp - 1) =
     Inl (case eth_format prim (AddressBytes (fst (xs ! k'))) of
            Inl e \<Rightarrow> Raised e
          | Inr a \<Rightarrow> Json (Error (Insufficient_res_stake (i + 1 + k' + 1) a
                   ((rs - amt - sum_list (map snd (take k' xs)) + (sp - 1 - int k') - 1) div (sp - 1 - int k')))))"
      by (rule Cons.IH [OF pre k' before short])
    then show ?thesis
      using head nz Suc by (simp add: x floordiv_def algebra_simps split: sum.splits)
  qed
qed


lemma parse_currency_nonneg: "parse_currency k v d = Inr x \<Longrightarrow> 0 \<le> x"
  by (auto simp: parse_currency_def Let_def py_int_def split: if_splits sum.splits)

lemma parse_reserved_nonneg:
  "parse_reserved prim i zs = Inr reserved \<Longrightarrow> list_all (\<lambda>x. 0 \<le> snd x) reserved"
proof (induction zs arbitrary: i reserved)
  case Nil
  then show ?case by simp
next
  case (Cons z zs)
  obtain addr st where z: "z = (addr, st)" by (cases z)
  from Cons.prems obtain eth amt rest where
    amt: "parse_currency ''res_stake'' st 9 = Inr amt"
    and rest: "parse_reserved prim (i + 1) zs = Inr rest"
    and res: "reserved = (eth, amt) # rest"
    by (auto simp: z split: sum.splits if_splits)
  from Cons.IH [OF rest] parse_currency_nonneg [OF amt] res show ?case by simp
qed

lemma sum_snd_nonneg: "list_all (\<lambda>x. 0 \<le> snd x) xs \<Longrightarrow> 0 \<le> sum_list (map snd xs)"
  for xs :: "('a \<times> int) list"
  by (induction xs) auto

lemma sum_take_le:
  "list_all (\<lambda>x. 0 \<le> snd x) xs \<Longrightarrow> sum_list (map snd (take i xs)) \<le> sum_list (map snd xs)"
  for xs :: "('a \<times> int) list"
proof (induction xs arbitrary: i)
  case Nil
  then show ?case by simp
next
  case (Cons x xs)
  show ?case
  proof (cases i)
    case 0
    then show ?thesis using sum_snd_nonneg [OF Cons.prems] by simp
  next
    case (Suc j)
    then show ?thesis using Cons.IH [of j] Cons.prems by simp
  qed
qed

lemma reserved_min_eq:
  "int j < MAX_STAKERS req - 1 \<Longrightarrow>
   (MAX_STAKE req - op_stake - sum_list (map snd (take j reserved)) + (MAX_STAKERS req - 1 - int j) - 1)
      div (MAX_STAKERS req - 1 - int j)
   = reserved_min req op_stake reserved j"
  unfolding reserved_min_def remaining_stake_before_def remaining_spots_before_def
  by (rule ceiling_division) simp

lemma validate_registration_stake_section:
  assumes "check_reg_keys_sigs prim p = Inr ()" and "contract p = Some c"
    and "fee p = Some fee_text" and "0 \<le> fee_value fee_text" and "fee_value fee_text \<le> 10000"
    and "length (res_addr p) = length (res_stake p)"
    and "parse_reserved prim 0 (zip (res_addr p) (res_stake p)) = Inr reserved"
  shows "validate_registration prim req (Inr p) = stake_checks prim req p False reserved"
  using assms by (simp add: validate_registration_def)

lemma stake_checks_loop:
  assumes "MIN_OP_STAKE req \<le> stake p"
    and "stake p + sum_list (map snd reserved) \<le> MAX_STAKE req"
    and "1 + int (length reserved) \<le> MAX_STAKERS req"
  shows "stake_checks prim req p False reserved =
     (case reserved_loop prim 0 reserved (MAX_STAKE req - stake p) (MAX_STAKERS req - 1) of
        Inl r \<Rightarrow> r
      | Inr (remaining_stake, remaining_spots) \<Rightarrow>
          (case floordiv (remaining_stake + remaining_spots - 1) remaining_spots of
             Inl e \<Rightarrow> Raised e
           | Inr m \<Rightarrow>
               Json (Success (Some \<lparr>report_remaining_contribution = remaining_stake,
                                    report_remaining_spots = remaining_spots,
                                    report_remaining_min_contribution = m\<rparr>))))"
  using assms by (simp add: stake_checks_def Let_def)

lemma reserved_loop_accepts_min:
  assumes "1 + int (length reserved) \<le> MAX_STAKERS req"
  shows "(reserved_loop prim 0 reserved (MAX_STAKE req - op_stake) (MAX_STAKERS req - 1) = Inr (r, s)) =
     ((\<forall>j < length reserved. reserved_min req op_stake reserved j \<le> snd (reserved ! j))
      \<and> r = remaining_stake_before req op_stake reserved (length reserved)
      \<and> s = remaining_spots_before req (length reserved))"
proof -
  have len: "int (length reserved) \<le> MAX_STAKERS req - 1" using assms by simp
  have mins: "\<And>j. j < length reserved \<Longrightarrow> reserved_min req op_stake reserved j =
      (MAX_STAKE req - op_stake - sum_list (map snd (take j reserved)) + (MAX_STAKERS req - 1 - int j) - 1)
        div (MAX_STAKERS req - 1 - int j)"
    using len by (intro reserved_min_eq [symmetric]) simp
  show ?thesis
    unfolding reserved_loop_accepts_iff [OF len]
    by (simp add: mins remaining_stake_before_def remaining_spots_before_def)
qed

lemma reserved_loop_shortfall_min:
  assumes "1 + int (length reserved) \<le> MAX_STAKERS req" and "k < length reserved"
    and "\<forall>j < k. reserved_min req op_stake reserved j \<le> snd (reserved ! j)"
    and "snd (reserved ! k) < reserved_min req op_stake reserved k"
  shows "reserved_loop prim 0 reserved (MAX_STAKE req - op_stake) (MAX_STAKERS req - 1) =
     Inl (case eth_format prim (AddressBytes (fst (reserved ! k))) of
            Inl e \<Rightarrow> Raised e
          | Inr a \<Rightarrow> Json (Error (Insufficient_res_stake (k + 1) a (reserved_min req op_stake reserved k))))"
proof -
  have len: "int (length reserved) \<le> MAX_STAKERS req - 1" using assms(1) by simp
  have mins: "\<And>j. j < length reserved \<Longrightarrow>
      (MAX_STAKE req - op_stake - sum_list (map snd (take j reserved)) + (MAX_STAKERS req - 1 - int j) - 1)
        div (MAX_STAKERS req - 1 - int j) = reserved_min req op_stake reserved j"
    using len by (intro reserved_min_eq) simp
  have before: "\<forall>j < k. (MAX_STAKE req - op_stake - sum_list (map snd (take j reserved)) + (MAX_STAKERS req - 1 - int j) - 1)
        div (MAX_STAKERS req - 1 - int j) \<le> snd (reserved ! j)"
  proof (intro allI impI)
    fix j assume "j < k"
    then show "(MAX_STAKE req - op_stake - sum_list (map snd (take j reserved)) + (MAX_STAKERS req - 1 - int j) - 1)
        div (MAX_STAKERS req - 1 - int j) \<le> snd (reserved ! j)"
      using assms(2,3) mins [of j] by (simp only:)
  qed
  have short: "snd (reserved ! k) < (MAX_STAKE req - op_stake - sum_list (map snd (take k reserved)) + (MAX_STAKERS req - 1 - int k) - 1)
        div (MAX_STAKERS req - 1 - int k)"
    using assms(4) by (simp only: mins [OF assms(2)])
  have "reserved_loop prim 0 reserved (MAX_STAKE req - op_stake) (MAX_STAKERS req - 1) =
     Inl (case eth_format prim (AddressBytes (fst (reserved ! k))) of
            Inl e \<Rightarrow> Raised e
          | Inr a \<Rightarrow> Json (Error (Insufficient_res_stake (0 + k + 1) a
              ((MAX_STAKE req - op_stake - sum_list (map snd (take k reserved)) + (MAX_STAKERS req - 1 - int k) - 1)
        div (MAX_STAKERS req - 1 - int k)))))"
    by (rule reserved_loop_first_shortfall [OF len assms(2) before short])
  then show ?thesis
    by (simp only: mins [OF assms(2)] add_0)
qed

subsection \<open>Runs on the concrete request\<close>

lemma replicate_20: "replicate 20 x = [x,x,x,x,x, x,x,x,x,x, x,x,x,x,x, x,x,x,x,x]"
  by (simp add: numeral_eq_Suc)

lemma raw_eth_addr_example:
  "raw_eth_addr example_primitives k example_address = Inr example_address_bytes"
  by (simp add: raw_eth_addr_def fullmatch_eth_re_def example_primitives_def is_space_def
      is_hexdigit_def hex_val_def example_address_def example_address_bytes_def replicate_20)

lemma eth_format_example:
  "eth_format example_primitives (AddressBytes example_address_bytes) = Inr ''0xChecksummed''"
  by (simp add: eth_format_def example_primitives_def example_address_bytes_def)

lemma parse_currency_examples:
  "parse_currency k ''9999.999999999'' 9 = Inr 9999999999999"
  "parse_currency k ''10000'' 9 = Inr 10000000000000"
  "parse_currency k ''10'' 9 = Inr 10000000000"
  by (simp_all add: parse_currency_def py_int_def fullmatch_digits_def is_digit_def
      nat_of_digits_def digit_val_def ljust_def)

lemma example_sigs_ok: "check_reg_keys_sigs example_primitives example_params = Inr ()"
  by (simp add: check_reg_keys_sigs_def example_primitives_def example_params_def)

lemma example_request_sigs_ok:
  "check_reg_keys_sigs example_primitives (example_request op_stake stakes) = Inr ()"
  by (simp add: check_reg_keys_sigs_def example_primitives_def example_params_def
      example_request_def)

subsection \<open>The reserved minimum\<close>

text \<open>
  Claim C1. For a multi-contributor request that reaches the stake section with enough
  operator stake, a total within \<^verbatim>\<open>MAX_STAKE\<close> and at most \<^verbatim>\<open>MAX_STAKERS\<close> contributors:
  the first reserved contributor whose amount is strictly below the ceiling of the stake
  still open over the spots still open is rejected with \<^verbatim>\<open>insufficient_res_stake\<close>, its
  1-based index and that minimum; when every contributor meets its minimum (and a spot
  is left), the request succeeds and reports the stake and spots still open. In the
  scenario (\<^verbatim>\<open>MAX_STAKE\<close> 120 000 000 000 000, 10 stakers, operator 30 000 000 000 000)
  the stake open is 90 000 000 000 000, the spots are 9 and the first minimum is
  10 000 000 000 000.
\<close>

theorem validate_registration_reserved_minimum:
  assumes sigs: "check_reg_keys_sigs prim p = Inr ()"
    and multi: "contract p = Some c"
    and fee: "fee p = Some fee_text" "0 \<le> fee_value fee_text" "fee_value fee_text \<le> 10000"
    and lens: "length (res_addr p) = length (res_stake p)"
    and parsed: "parse_reserved prim 0 (zip (res_addr p) (res_stake p)) = Inr reserved"
    and op: "MIN_OP_STAKE req \<le> stake p"
    and total: "stake p + sum_list (map snd reserved) \<le> MAX_STAKE req"
    and count: "1 + int (length reserved) \<le> MAX_STAKERS req"
  shows "(\<forall>k a. k < length reserved
            \<and> (\<forall>j < k. reserved_min req (stake p) reserved j \<le> snd (reserved ! j))
            \<and> snd (reserved ! k) < reserved_min req (stake p) reserved k
            \<and> eth_format prim (AddressBytes (fst (reserved ! k))) = Inr a \<longrightarrow>
            validate_registration prim req (Inr p)
              = Json (Error (Insufficient_res_stake (k + 1) a (reserved_min req (stake p) reserved k))))
       \<and> ((\<forall>j < length reserved. reserved_min req (stake p) reserved j \<le> snd (reserved ! j))
            \<and> 1 + int (length reserved) < MAX_STAKERS req \<longrightarrow>
            validate_registration prim req (Inr p)
              = Json (Success (Some
                  \<lparr>report_remaining_contribution
                       = remaining_stake_before req (stake p) reserved (length reserved),
                   report_remaining_spots = remaining_spots_before req (length reserved),
                   report_remaining_min_contribution
                       = reserved_min req (stake p) reserved (length reserved)\<rparr>)))
       \<and> (req = scenario_requirement \<and> stake p = 30000000000000 \<longrightarrow>
            remaining_stake_before req (stake p) reserved 0 = 90000000000000
            \<and> remaining_spots_before req 0 = 9
            \<and> reserved_min req (stake p) reserved 0 = 10000000000000)"
proof (intro conjI allI impI)
  note reach = validate_registration_stake_section [OF sigs multi fee lens parsed, of req]
  note loop = stake_checks_loop [OF op total count, of prim]
  {
    fix k a
    assume h: "k < length reserved
            \<and> (\<forall>j < k. reserved_min req (stake p) reserved j \<le> snd (reserved ! j))
            \<and> snd (reserved ! k) < reserved_min req (stake p) reserved k
            \<and> eth_format prim (AddressBytes (fst (reserved ! k))) = Inr a"
    then have "reserved_loop prim 0 reserved (MAX_STAKE req - stake p) (MAX_STAKERS req - 1) =
       Inl (Json (Error (Insufficient_res_stake (k + 1) a (reserved_min req (stake p) reserved k))))"
      using reserved_loop_shortfall_min [OF count, of k "stake p" prim] by simp
    then show "validate_registration prim req (Inr p)
              = Json (Error (Insufficient_res_stake (k + 1) a (reserved_min req (stake p) reserved k)))"
      by (simp add: reach loop)
  }
  {
    assume h: "(\<forall>j < length reserved. reserved_min req (stake p) reserved j \<le> snd (reserved ! j))
            \<and> 1 + int (length reserved) < MAX_STAKERS req"
    then have l: "reserved_loop prim 0 reserved (MAX_STAKE req - stake p) (MAX_STAKERS req - 1)
        = Inr (remaining_stake_before req (stake p) reserved (length reserved),
               remaining_spots_before req (length reserved))"
      using reserved_loop_accepts_min [OF count, of prim "stake p"] by simp
    have sp: "int (length reserved) < MAX_STAKERS req - 1" using h by simp
    have "remaining_spots_before req (length reserved) \<noteq> 0"
      using sp by (simp add: remaining_spots_before_def)
    moreover have "(remaining_stake_before req (stake p) reserved (length reserved)
             + remaining_spots_before req (length reserved) - 1)
            div remaining_spots_before req (length reserved)
          = reserved_min req (stake p) reserved (length reserved)"
      using reserved_min_eq [OF sp, of "stake p" reserved]
      by (simp add: remaining_stake_before_def remaining_spots_before_def)
    ultimately show "validate_registration prim req (Inr p)
              = Json (Success (Some
                  \<lparr>report_remaining_contribution
                       = remaining_stake_before req (stake p) reserved (length reserved),
                   report_remaining_spots = remaining_spots_before req (length reserved),
                   report_remaining_min_contribution
                       = reserved_min req (stake p) reserved (length reserved)\<rparr>))"
      by (simp add: reach loop l floordiv_def)
  }
  {
    assume h: "req = scenario_requirement \<and> stake p = 30000000000000"
    then show "remaining_stake_before req (stake p) reserved 0 = 90000000000000"
      by (simp add: remaining_stake_before_def scenario_requirement_def)
    from h show "remaining_spots_before req 0 = 9"
      by (simp add: remaining_spots_before_def scenario_requirement_def)
    from h show "reserved_min req (stake p) reserved 0 = 10000000000000"
      by (simp add: reserved_min_def remaining_stake_before_def remaining_spots_before_def
          scenario_requirement_def)
  }
qed

theorem validate_registration_reserved_minimum_witness:
  "validate_registration example_primitives scenario_requirement
       (Inr (example_request 30000000000000 [''9999.999999999'']))
     = Json (Error (Insufficient_res_stake 1 ''0xChecksummed'' 10000000000000))
   \<and> validate_registration example_primitives scenario_requirement
       (Inr (example_request 30000000000000 [''10000'']))
     = Json (Success (Some \<lparr>report_remaining_contribution = 80000000000000,
                             report_remaining_spots = 8,
                             report_remaining_min_contribution = 10000000000000\<rparr>))"
proof
  let ?low = "[(example_address_bytes, 9999999999999 :: int)]"
  let ?p = "example_request 30000000000000 [''9999.999999999'']"
  have parsed: "parse_reserved example_primitives 0 (zip (res_addr ?p) (res_stake ?p)) = Inr ?low"
    by (simp add: example_request_def raw_eth_addr_example parse_currency_examples)
  have facts: "contract ?p = Some (replicate 20 5)" "fee ?p = Some ''500''"
    "0 \<le> fee_value ''500''" "fee_value ''500'' \<le> 10000"
    "length (res_addr ?p) = length (res_stake ?p)"
    "MIN_OP_STAKE scenario_requirement \<le> stake ?p"
    "stake ?p + sum_list (map snd ?low) \<le> MAX_STAKE scenario_requirement"
    "1 + int (length ?low) \<le> MAX_STAKERS scenario_requirement"
    by (simp_all add: example_request_def example_params_def scenario_requirement_def
        MIN_OP_STAKE_def fee_value_def fullmatch_digits_def is_digit_def nat_of_digits_def
        digit_val_def)
  have min0: "reserved_min scenario_requirement (stake ?p) ?low 0 = 10000000000000"
    by (simp add: reserved_min_def remaining_stake_before_def remaining_spots_before_def
        scenario_requirement_def example_request_def)
  note inst = validate_registration_reserved_minimum
      [OF example_request_sigs_ok facts(1-5) parsed facts(6-8), THEN conjunct1, rule_format, of 0 "''0xChecksummed''"]
  show "validate_registration example_primitives scenario_requirement (Inr ?p)
     = Json (Error (Insufficient_res_stake 1 ''0xChecksummed'' 10000000000000))"
    using inst by (simp add: min0 eth_format_example)
next
  let ?ok = "[(example_address_bytes, 10000000000000 :: int)]"
  let ?p = "example_request 30000000000000 [''10000'']"
  have parsed: "parse_reserved example_primitives 0 (zip (res_addr ?p) (res_stake ?p)) = Inr ?ok"
    by (simp add: example_request_def raw_eth_addr_example parse_currency_examples)
  have facts: "contract ?p = Some (replicate 20 5)" "fee ?p = Some ''500''"
    "0 \<le> fee_value ''500''" "fee_value ''500'' \<le> 10000"
    "length (res_addr ?p) = length (res_stake ?p)"
    "MIN_OP_STAKE scenario_requirement \<le> stake ?p"
    "stake ?p + sum_list (map snd ?ok) \<le> MAX_STAKE scenario_requirement"
    "1 + int (length ?ok) \<le> MAX_STAKERS scenario_requirement"
    by (simp_all add: example_request_def example_params_def scenario_requirement_def
        MIN_OP_STAKE_def fee_value_def fullmatch_digits_def is_digit_def nat_of_digits_def
        digit_val_def)
  have mins: "reserved_min scenario_requirement (stake ?p) ?ok 0 = 10000000000000"
    "reserved_min scenario_requirement (stake ?p) ?ok (Suc 0) = 10000000000000"
    "remaining_stake_before scenario_requirement (stake ?p) ?ok (Suc 0) = 80000000000000"
    "remaining_spots_before scenario_requirement (Suc 0) = 8"
    "1 + int (length ?ok) < MAX_STAKERS scenario_requirement"
    by (simp_all add: reserved_min_def remaining_stake_before_def remaining_spots_before_def
        scenario_requirement_def example_request_def)
  note inst = validate_registration_reserved_minimum
      [OF example_request_sigs_ok facts(1-5) parsed facts(6-8), THEN conjunct2, THEN conjunct1]
  show "validate_registration example_primitives scenario_requirement (Inr ?p)
     = Json (Success (Some \<lparr>report_remaining_contribution = 80000000000000,
                             report_remaining_spots = 8,
                             report_remaining_min_contribution = 10000000000000\<rparr>))"
    using inst mins(5) by (simp add: mins(1-4))
qed

subsection \<open>Solo requests and the operator's minimum\<close>

lemma reserved_loop_early_return:
  "reserved_loop prim i xs rs sp = Inl r \<Longrightarrow>
   (\<exists>e. r = Raised e) \<or> (\<exists>k a m. r = Json (Error (Insufficient_res_stake k a m)))"
  by (induction xs arbitrary: i rs sp)
     (auto simp: floordiv_def split: if_splits sum.splits)

lemma validate_registration_operator_minimum:
  assumes "check_reg_keys_sigs prim p = Inr ()" and "contract p = Some c"
    and "fee p = Some fee_text" and "0 \<le> fee_value fee_text" and "fee_value fee_text \<le> 10000"
    and "length (res_addr p) = length (res_stake p)"
    and "parse_reserved prim 0 (zip (res_addr p) (res_stake p)) = Inr reserved"
  shows "(validate_registration prim req (Inr p)
            = Json (Error (Insufficient_op_stake (stake p) (MIN_OP_STAKE req))))
           = (stake p < MAX_STAKE req div 4)"
    and "(validate_registration prim req (Inr p)
            = Json (Error (Too_much (stake p + sum_list (map snd reserved)) (MAX_STAKE req))))
           = (MAX_STAKE req div 4 \<le> stake p \<and> MAX_STAKE req < stake p + sum_list (map snd reserved))"
  unfolding validate_registration_stake_section [OF assms]
  by (auto simp: stake_checks_def Let_def MIN_OP_STAKE_def floordiv_def
      split: sum.splits prod.splits dest: reserved_loop_early_return)

lemma stake_checks_solo_exact:
  "(stake_checks prim req p True reserved = Json (Success None))
     = (stake p + sum_list (map snd reserved) = MAX_STAKE req)"
  by (simp add: stake_checks_def Let_def)

lemma validate_registration_solo_never_succeeds:
  "contract p = None \<Longrightarrow> validate_registration prim req (Inr p) \<noteq> Json (Success rep)"
  by (auto simp: validate_registration_def Let_def split: sum.splits exn.splits option.splits)

lemma validate_registration_solo_never_wrong_total:
  "contract p = None \<Longrightarrow>
   validate_registration prim req (Inr p) \<noteq> Json (Error (Wrong_op_stake total_reserved required))"
  by (auto simp: validate_registration_def Let_def split: sum.splits exn.splits option.splits)

lemma solo_request_sigs_ok: "check_reg_keys_sigs example_primitives (solo_request s) = Inr ()"
  by (simp add: check_reg_keys_sigs_def example_primitives_def example_params_def solo_request_def)

text \<open>
  Claim C2. The stake section accepts a solo total exactly when it equals \<^verbatim>\<open>MAX_STAKE\<close>
  (\<open>stake_checks_solo_exact\<close>), and a multi-contributor request that reaches it is
  rejected for the operator's stake exactly below \<^verbatim>\<open>MAX_STAKE // 4\<close> and then for the
  total exactly above \<^verbatim>\<open>MAX_STAKE\<close> (\<open>validate_registration_operator_minimum\<close>). But no
  solo request reaches the stake section: without a fee it takes the branch
  \<^verbatim>\<open>elif "fee" not in params\<close>, with a fee the branch before it, so every solo request
  with valid keys is answered \<^verbatim>\<open>invalid_fee\<close>, whatever its stake.
\<close>

theorem validate_registration_solo_invalid_fee:
  assumes "contract p = None" and "check_reg_keys_sigs prim p = Inr ()" and "res_addr p = []"
  shows "validate_registration prim req (Inr p)
           = Json (Error (Invalid_fee
               (if fee p = None then ''fee is required for a multi-contribution registration''
                else ''fee is not applicable to a solo node registration'')))"
  using assms by (simp add: validate_registration_def)

theorem validate_registration_solo_invalid_fee_witness:
  "validate_registration example_primitives module_constants (Inr (solo_request 120000000000))
       = Json (Error (Invalid_fee ''fee is required for a multi-contribution registration''))
   \<and> validate_registration example_primitives module_constants (Inr (solo_request 119999999999))
       = Json (Error (Invalid_fee ''fee is required for a multi-contribution registration''))
   \<and> validate_registration example_primitives module_constants (Inr (solo_request 120000000001))
       = Json (Error (Invalid_fee ''fee is required for a multi-contribution registration''))
   \<and> MAX_STAKE module_constants = 120000000000"
proof -
  have facts: "contract (solo_request s) = None" "res_addr (solo_request s) = []"
    "fee (solo_request s) = None" for s
    by (simp_all add: solo_request_def example_params_def)
  show ?thesis
    using validate_registration_solo_invalid_fee
      [OF facts(1) solo_request_sigs_ok facts(2), where req = module_constants]
    by (simp add: facts(3) module_constants_def)
qed

subsection \<open>The number of contributors\<close>

lemma validate_registration_too_many:
  assumes sigs: "check_reg_keys_sigs prim p = Inr ()"
    and multi: "contract p = Some c"
    and fee: "fee p = Some fee_text" "0 \<le> fee_value fee_text" "fee_value fee_text \<le> 10000"
    and lens: "length (res_addr p) = length (res_stake p)"
    and parsed: "parse_reserved prim 0 (zip (res_addr p) (res_stake p)) = Inr reserved"
    and op: "MIN_OP_STAKE req \<le> stake p"
    and total: "stake p + sum_list (map snd reserved) \<le> MAX_STAKE req"
    and over: "MAX_STAKERS req < 1 + int (length reserved)"
  shows "validate_registration prim req (Inr p) = Json (Error (Too_many (MAX_STAKERS req - 1)))"
  using op total over
  by (simp add: validate_registration_stake_section [OF sigs multi fee lens parsed]
      stake_checks_def Let_def)

lemma parse_reserved_example:
  "list_all (\<lambda>t. parse_currency ''res_stake'' t 9 = Inr amt) stakes \<Longrightarrow>
   parse_reserved example_primitives i (zip (replicate (length stakes) example_address) stakes)
     = Inr (replicate (length stakes) (example_address_bytes, amt))"
  by (induction stakes arbitrary: i) (simp_all add: raw_eth_addr_example)

lemma example_request_facts:
  "contract (example_request s stakes) = Some (replicate 20 5)"
  "fee (example_request s stakes) = Some ''500''"
  "0 \<le> fee_value ''500''" "fee_value ''500'' \<le> 10000"
  "length (res_addr (example_request s stakes)) = length (res_stake (example_request s stakes))"
  "stake (example_request s stakes) = s"
  "res_addr (example_request s stakes) = replicate (length stakes) example_address"
  "res_stake (example_request s stakes) = stakes"
  by (simp_all add: example_request_def example_params_def fee_value_def fullmatch_digits_def
      is_digit_def nat_of_digits_def digit_val_def)

text \<open>
  Claim C5. A request with more than \<^verbatim>\<open>MAX_STAKERS\<close> contributors that passes the checks
  before it is answered \<^verbatim>\<open>too_many\<close> (\<open>validate_registration_too_many\<close>). A request with
  exactly \<^verbatim>\<open>MAX_STAKERS\<close> contributors, each meeting its minimum, leaves no spot open, and
  the ceiling division for \<^verbatim>\<open>remaining_min_contribution\<close> after the loop divides by zero:
  the request is not answered with a success, it raises \<^verbatim>\<open>ZeroDivisionError\<close>.
\<close>

theorem validate_registration_full_plan_raises:
  assumes sigs: "check_reg_keys_sigs prim p = Inr ()"
    and multi: "contract p = Some c"
    and fee: "fee p = Some fee_text" "0 \<le> fee_value fee_text" "fee_value fee_text \<le> 10000"
    and lens: "length (res_addr p) = length (res_stake p)"
    and parsed: "parse_reserved prim 0 (zip (res_addr p) (res_stake p)) = Inr reserved"
    and op: "MIN_OP_STAKE req \<le> stake p"
    and total: "stake p + sum_list (map snd reserved) \<le> MAX_STAKE req"
    and full: "1 + int (length reserved) = MAX_STAKERS req"
    and mins: "list_all (\<lambda>j. reserved_min req (stake p) reserved j \<le> snd (reserved ! j))
                 [0 ..< length reserved]"
  shows "validate_registration prim req (Inr p) = Raised ZeroDivisionError"
proof -
  have count: "1 + int (length reserved) \<le> MAX_STAKERS req" using full by simp
  have "\<forall>j < length reserved. reserved_min req (stake p) reserved j \<le> snd (reserved ! j)"
    using mins by (simp add: list_all_iff)
  then have "reserved_loop prim 0 reserved (MAX_STAKE req - stake p) (MAX_STAKERS req - 1)
        = Inr (remaining_stake_before req (stake p) reserved (length reserved),
               remaining_spots_before req (length reserved))"
    using reserved_loop_accepts_min [OF count, of prim "stake p"] by simp
  moreover have "remaining_spots_before req (length reserved) = 0"
    using full by (simp add: remaining_spots_before_def)
  ultimately show ?thesis
    by (simp add: validate_registration_stake_section [OF sigs multi fee lens parsed]
        stake_checks_loop [OF op total count] floordiv_def)
qed

theorem validate_registration_full_plan_raises_witness:
  "validate_registration example_primitives module_constants
       (Inr (example_request 30000000000 (replicate 9 ''10'')))
     = Raised ZeroDivisionError
   \<and> MAX_STAKERS module_constants = 10"
proof
  let ?p = "example_request 30000000000 (replicate 9 ''10'')"
  let ?reserved = "replicate 9 (example_address_bytes, 10000000000 :: int)"
  have nine: "replicate 9 x = [x, x, x, x, x, x, x, x, x]" for x :: 'a
    by (simp add: numeral_eq_Suc)
  have parsed: "parse_reserved example_primitives 0 (zip (res_addr ?p) (res_stake ?p)) = Inr ?reserved"
    using parse_reserved_example [of "10000000000" "replicate 9 ''10''" 0]
    by (simp add: example_request_facts parse_currency_examples list_all_iff)
  have op: "MIN_OP_STAKE module_constants \<le> stake ?p"
    by (simp add: example_request_facts MIN_OP_STAKE_def module_constants_def)
  have total: "stake ?p + sum_list (map snd ?reserved) \<le> MAX_STAKE module_constants"
    by (simp add: example_request_facts module_constants_def nine)
  have full: "1 + int (length ?reserved) = MAX_STAKERS module_constants"
    by (simp add: module_constants_def)
  have mins: "list_all (\<lambda>j. reserved_min module_constants (stake ?p) ?reserved j \<le> snd (?reserved ! j))
                 [0 ..< length ?reserved]"
    by (simp add: nine upt_rec reserved_min_def remaining_stake_before_def
        remaining_spots_before_def module_constants_def example_request_facts)
  show "validate_registration example_primitives module_constants (Inr ?p) = Raised ZeroDivisionError"
    by (rule validate_registration_full_plan_raises
        [OF example_request_sigs_ok example_request_facts(1-5) parsed op total full mins])
  show "MAX_STAKERS module_constants = 10" by (simp add: module_constants_def)
qed

subsection \<open>Accepted plans can be completed\<close>

lemma validate_registration_accepted:
  assumes "validate_registration prim req (Inr p) = Json (Success (Some rep))"
    and "parse_reserved prim 0 (zip (res_addr p) (res_stake p)) = Inr reserved"
  shows "stake_checks prim req p False reserved = Json (Success (Some rep))"
  using assms
  by (auto simp: validate_registration_def Let_def stake_checks_def
      split: sum.splits exn.splits option.splits if_splits)

lemma stake_checks_accepted:
  assumes "stake_checks prim req p False reserved = Json (Success (Some rep))"
  shows "MIN_OP_STAKE req \<le> stake p"
    and "stake p + sum_list (map snd reserved) \<le> MAX_STAKE req"
    and "1 + int (length reserved) \<le> MAX_STAKERS req"
    and "reserved_loop prim 0 reserved (MAX_STAKE req - stake p) (MAX_STAKERS req - 1)
          = Inr (remaining_stake_before req (stake p) reserved (length reserved),
                 remaining_spots_before req (length reserved))"
proof -
  from assms show op: "MIN_OP_STAKE req \<le> stake p"
    by (auto simp: stake_checks_def Let_def split: if_splits)
  from assms show total: "stake p + sum_list (map snd reserved) \<le> MAX_STAKE req"
    by (auto simp: stake_checks_def Let_def split: if_splits)
  from assms show count: "1 + int (length reserved) \<le> MAX_STAKERS req"
    by (auto simp: stake_checks_def Let_def split: if_splits)
  from assms obtain r s where loop: "reserved_loop prim 0 reserved (MAX_STAKE req - stake p) (MAX_STAKERS req - 1) = Inr (r, s)"
    unfolding stake_checks_loop [OF op total count]
    by (auto simp: floordiv_def split: sum.splits if_splits dest: reserved_loop_early_return)
  note acc = reserved_loop_accepts_min [OF count, of prim "stake p" r s, THEN iffD1, OF loop]
  from acc loop show "reserved_loop prim 0 reserved (MAX_STAKE req - stake p) (MAX_STAKERS req - 1)
          = Inr (remaining_stake_before req (stake p) reserved (length reserved),
                 remaining_spots_before req (length reserved))"
    by simp
qed

lemma ceiling_share:
  fixes R s :: int
  assumes "0 \<le> R" and "1 \<le> s"
  shows "0 \<le> \<lceil>real_of_int R / real_of_int s\<rceil>"
    and "\<lceil>real_of_int R / real_of_int s\<rceil> \<le> R"
    and "R \<le> s * \<lceil>real_of_int R / real_of_int s\<rceil>"
proof -
  let ?m = "\<lceil>real_of_int R / real_of_int s\<rceil>"
  have spos: "0 < real_of_int s" using assms(2) by simp
  have "0 \<le> real_of_int R / real_of_int s" using assms by simp
  then show "0 \<le> ?m" by (simp add: ceiling_le_iff [symmetric] le_ceiling_iff)
  have "real_of_int R / real_of_int s \<le> real_of_int R"
    using assms by (simp add: divide_le_eq mult_le_cancel_left1)
  then show "?m \<le> R" by (simp add: ceiling_le_iff)
  have "real_of_int R \<le> real_of_int ?m * real_of_int s"
    by (rule pos_divide_le_eq [OF spos, THEN iffD1, OF le_of_int_ceiling])
  then have "real_of_int R \<le> real_of_int (s * ?m)" by (simp add: mult.commute)
  then show "R \<le> s * ?m" by (simp only: of_int_le_iff)
qed

lemma ceiling_bound:
  fixes R s m :: int
  assumes "1 \<le> s" and "R \<le> s * m"
  shows "\<lceil>real_of_int R / real_of_int s\<rceil> \<le> m"
proof -
  have spos: "0 < real_of_int s" using assms(1) by simp
  have "real_of_int R \<le> real_of_int (s * m)" using assms(2) by (simp only: of_int_le_iff)
  then have "real_of_int R \<le> real_of_int m * real_of_int s" by (simp add: mult.commute)
  then have "real_of_int R / real_of_int s \<le> real_of_int m"
    by (rule pos_divide_le_eq [OF spos, THEN iffD2])
  then show ?thesis by (simp add: ceiling_le_iff)
qed

text \<open>
  A plan that has passed the total check, the count check and the loop over the reserved
  contributors, at each of its prefixes. The facts about a prefix that leaves no spot
  open, and about the minimum of the next contributor, come from the comparison in the
  loop; none of them depends on what the endpoint does after the loop.
\<close>

lemma reserved_plan_fair:
  assumes parsed: "parse_reserved prim 0 (zip (res_addr p) (res_stake p)) = Inr reserved"
    and total: "stake p + sum_list (map snd reserved) \<le> MAX_STAKE req"
    and count: "1 + int (length reserved) \<le> MAX_STAKERS req"
    and loop: "reserved_loop prim 0 reserved (MAX_STAKE req - stake p) (MAX_STAKERS req - 1) = Inr (r, s)"
    and i: "i \<le> length reserved"
  defines "R \<equiv> remaining_stake_before req (stake p) reserved i"
  defines "spots \<equiv> remaining_spots_before req i"
  defines "m \<equiv> reserved_min req (stake p) reserved i"
  shows "0 \<le> R" and "0 \<le> spots" and "spots = 0 \<Longrightarrow> 0 < i \<Longrightarrow> R = 0"
    and "1 \<le> spots \<Longrightarrow> 0 \<le> m" and "1 \<le> spots \<Longrightarrow> m \<le> R"
    and "1 \<le> spots \<Longrightarrow> R \<le> spots * m"
    and "1 \<le> spots \<Longrightarrow> R \<le> (MAX_STAKERS req - int i) * m"
    and "1 \<le> spots \<Longrightarrow>
           reserved_loop prim 0 (take i reserved @ [(a, R)])
             (MAX_STAKE req - stake p) (MAX_STAKERS req - 1) = Inr (0, spots - 1)"
    and "i < length reserved \<Longrightarrow> 1 \<le> remaining_spots_before req (i + 1) \<Longrightarrow>
           reserved_min req (stake p) reserved (i + 1) \<le> m"
proof -
  note acc = reserved_loop_accepts_min [OF count, of prim "stake p" r s, THEN iffD1, OF loop]
  from acc have mins: "\<And>j. j < length reserved \<Longrightarrow>
      reserved_min req (stake p) reserved j \<le> snd (reserved ! j)" by simp
  have nonneg: "list_all (\<lambda>x. 0 \<le> snd x) reserved" by (rule parse_reserved_nonneg [OF parsed])
  have "sum_list (map snd (take i reserved)) \<le> sum_list (map snd reserved)"
    by (rule sum_take_le [OF nonneg])
  then show R: "0 \<le> R" using total by (simp add: R_def remaining_stake_before_def)
  show S: "0 \<le> spots" using count i by (simp add: spots_def remaining_spots_before_def)
  have m: "m = \<lceil>real_of_int R / real_of_int spots\<rceil>"
    by (simp add: m_def reserved_min_def R_def spots_def)
  have step: "remaining_stake_before req (stake p) reserved (j + 1)
                = remaining_stake_before req (stake p) reserved j - snd (reserved ! j)"
    if "j < length reserved" for j
    using that by (simp add: remaining_stake_before_def take_Suc_conv_app_nth)
  {
    assume z: "spots = 0" and ipos: "0 < i"
    define j where "j = i - 1"
    have ij: "i = j + 1" and j: "j < length reserved" using ipos i by (simp_all add: j_def)
    have one: "remaining_spots_before req j = 1"
      using z by (simp add: spots_def remaining_spots_before_def ij)
    have "reserved_min req (stake p) reserved j = remaining_stake_before req (stake p) reserved j"
      by (simp add: reserved_min_def one)
    with mins [OF j] have "remaining_stake_before req (stake p) reserved j \<le> snd (reserved ! j)"
      by simp
    with step [OF j] have "R \<le> 0" by (simp add: R_def ij)
    with R show "R = 0" by simp
  }
  {
    assume sp: "1 \<le> spots"
    note share = ceiling_share [OF R sp, folded m]
    show "0 \<le> m" by (rule share(1))
    show "m \<le> R" by (rule share(2))
    show "R \<le> spots * m" by (rule share(3))
    have "MAX_STAKERS req - int i = spots + 1" by (simp add: spots_def remaining_spots_before_def)
    then have "(MAX_STAKERS req - int i) * m = spots * m + m" by (simp add: algebra_simps)
    with share(1,3) show "R \<le> (MAX_STAKERS req - int i) * m" by simp
    have whole: "reserved_loop prim 0 (take i reserved @ drop i reserved)
        (MAX_STAKE req - stake p) (MAX_STAKERS req - 1) = Inr (r, s)"
      using loop by simp
    then obtain r1 s1 where prefix: "reserved_loop prim 0 (take i reserved)
        (MAX_STAKE req - stake p) (MAX_STAKERS req - 1) = Inr (r1, s1)"
      unfolding reserved_loop_append by (auto split: sum.splits)
    have len: "int (length (take i reserved)) \<le> MAX_STAKERS req - 1" using count i by simp
    from reserved_loop_accepts_iff [OF len, THEN iffD1, OF prefix]
    have r1: "r1 = R" and s1: "s1 = spots"
      using i by (simp_all add: R_def spots_def remaining_stake_before_def
          remaining_spots_before_def min_absorb2)
    have mi: "(R + spots - 1) div spots = m"
      unfolding m using sp by (intro ceiling_division) simp
    have last: "reserved_loop prim (0 + length (take i reserved)) [(a, R)] R spots = Inr (0, spots - 1)"
      using sp share(2) by (simp add: floordiv_def mi)
    show "reserved_loop prim 0 (take i reserved @ [(a, R)])
            (MAX_STAKE req - stake p) (MAX_STAKERS req - 1) = Inr (0, spots - 1)"
      unfolding reserved_loop_append prefix r1 s1 using last by simp
  }
  {
    assume il: "i < length reserved" and nx: "1 \<le> remaining_spots_before req (i + 1)"
    have sp: "1 \<le> spots" and sp1: "remaining_spots_before req (i + 1) = spots - 1"
      using nx by (simp_all add: spots_def remaining_spots_before_def)
    note share = ceiling_share [OF R sp, folded m]
    have "m \<le> snd (reserved ! i)" using mins [OF il] by (simp add: m_def)
    then have "remaining_stake_before req (stake p) reserved (i + 1) \<le> R - m"
      using step [OF il] by (simp add: R_def)
    also have "\<dots> \<le> spots * m - m" using share(3) by simp
    also have "\<dots> = (spots - 1) * m" by (simp add: algebra_simps)
    also have "\<dots> = remaining_spots_before req (i + 1) * m" by (simp only: sp1)
    finally show "reserved_min req (stake p) reserved (i + 1) \<le> m"
      unfolding reserved_min_def by (intro ceiling_bound nx)
  }
qed

lemma example_request_accepted:
  "validate_registration example_primitives scenario_requirement
       (Inr (example_request 30000000000000 [''10000'']))
     = Json (Success (Some \<lparr>report_remaining_contribution = 80000000000000,
                             report_remaining_spots = 8,
                             report_remaining_min_contribution = 10000000000000\<rparr>))"
proof -
  let ?p = "example_request 30000000000000 [''10000'']"
  have parsed: "parse_reserved example_primitives 0 (zip (res_addr ?p) (res_stake ?p))
                  = Inr [(example_address_bytes, 10000000000000)]"
    by (simp add: example_request_facts raw_eth_addr_example parse_currency_examples)
  show ?thesis
    unfolding validate_registration_stake_section
      [OF example_request_sigs_ok example_request_facts(1-5) parsed]
    by (simp add: stake_checks_def example_request_facts scenario_requirement_def
        MIN_OP_STAKE_def floordiv_def)
qed

text \<open>
  The same runs with the constants of the source, where \<^verbatim>\<open>MAX_STAKE\<close> is 120 000 000 000:
  an operator stake of 30 000 000 000 leaves 90 000 000 000 for 9 spots, a first reserved
  stake below 10 000 000 000 is rejected and one of exactly that amount is accepted; the
  figures of the scenario themselves exceed this \<^verbatim>\<open>MAX_STAKE\<close> and are answered \<^verbatim>\<open>too_much\<close>.
\<close>

lemma module_constants_run:
  "validate_registration example_primitives module_constants
       (Inr (example_request 30000000000 [''9.999999999'']))
     = Json (Error (Insufficient_res_stake 1 ''0xChecksummed'' 10000000000))"
  "validate_registration example_primitives module_constants
       (Inr (example_request 30000000000 [''10'']))
     = Json (Success (Some \<lparr>report_remaining_contribution = 80000000000,
                             report_remaining_spots = 8,
                             report_remaining_min_contribution = 10000000000\<rparr>))"
  "validate_registration example_primitives module_constants
       (Inr (example_request 30000000000000 [''10000'']))
     = Json (Error (Too_much 40000000000000 120000000000))"
proof -
  have low: "parse_currency ''res_stake'' ''9.999999999'' 9 = Inr 9999999999"
    by (simp add: parse_currency_def py_int_def fullmatch_digits_def is_digit_def
        nat_of_digits_def digit_val_def ljust_def)
  have parsed: "parse_reserved example_primitives 0
        (zip (res_addr (example_request s [t])) (res_stake (example_request s [t])))
      = Inr [(example_address_bytes, amt)]"
    if "parse_currency ''res_stake'' t 9 = Inr amt" for s t amt
    using that by (simp add: example_request_facts raw_eth_addr_example)
  show "validate_registration example_primitives module_constants
       (Inr (example_request 30000000000 [''9.999999999'']))
     = Json (Error (Insufficient_res_stake 1 ''0xChecksummed'' 10000000000))"
    unfolding validate_registration_stake_section
      [OF example_request_sigs_ok example_request_facts(1-5) parsed [OF low]]
    by (simp add: stake_checks_def example_request_facts module_constants_def
        MIN_OP_STAKE_def floordiv_def eth_format_example)
  show "validate_registration example_primitives module_constants
       (Inr (example_request 30000000000 [''10'']))
     = Json (Success (Some \<lparr>report_remaining_contribution = 80000000000,
                             report_remaining_spots = 8,
                             report_remaining_min_contribution = 10000000000\<rparr>))"
    unfolding validate_registration_stake_section
      [OF example_request_sigs_ok example_request_facts(1-5) parsed [OF parse_currency_examples(3)]]
    by (simp add: stake_checks_def example_request_facts module_constants_def
        MIN_OP_STAKE_def floordiv_def)
  show "validate_registration example_primitives module_constants
       (Inr (example_request 30000000000000 [''10000'']))
     = Json (Error (Too_much 40000000000000 120000000000))"
    unfolding validate_registration_stake_section
      [OF example_request_sigs_ok example_request_facts(1-5) parsed [OF parse_currency_examples(2)]]
    by (simp add: stake_checks_def example_request_facts module_constants_def
        MIN_OP_STAKE_def floordiv_def)
qed

text \<open>
  With one spot only, \<open>check_stakes\<close> accepts nothing but a plan of the operator alone.
\<close>

lemma check_stakes_single_spot:
  "check_stakes stakes total_stake stakers 1 = Inr () \<Longrightarrow> length stakes = 1"
  using check_stakes_accepted_rule(2,3) [of stakes total_stake stakers 1] by simp

text \<open>
  Three plans that \<open>check_stakes\<close> accepts. With its floor division the formula of the
  claim can fail: for \<open>[99]\<close> of a total of 100 with 3 stakers the minimum of the next
  staker is \<open>1 div 2 = 0\<close>, and \<open>99 + 3 * 0\<close> is below 100. With one spot the operator's
  quarter is accepted although 75 stay open and no staker can be added. And amounts are
  not checked for their sign: after \<open>[200]\<close> the stake still open is \<open>- 100\<close>.
\<close>

theorem accepted_plan_counterexample:
  "check_stakes [99] 100 [''a''] 3 = Inr ()
   \<and> required_min [99] 100 3 1 = 0
   \<and> \<not> (100 \<le> 99 + (3 - 0) * required_min [99] 100 3 1)
   \<and> check_stakes [25] 100 [''a''] 1 = Inr ()
   \<and> check_stakes [25, 75] 100 [''a'', ''b''] 1
       = Inl (ValueError ''too many stakers (2 > 1)'')
   \<and> check_stakes [200, - 100] 100 [''a'', ''b''] 2 = Inr ()
   \<and> required_min [200, - 100] 100 2 1 = - 100
   \<and> \<not> (100 \<le> 200 + (2 - 0) * required_min [200, - 100] 100 2 1)"
  by (simp add: check_stakes_def floordiv_def required_min_def str_nat.simps str_int_def
      digit_char_def)

text \<open>
  Claim C4, amended. A request that \<^verbatim>\<open>/validate\<close> accepts has passed the total check, the
  count check and the loop over its reserved contributors. For a plan that has passed
  them and every prefix of it, the operator and the first \<open>i\<close> reserved contributors: the
  stake still open and the spots still open are not negative; when no spot is open and
  the prefix holds a reserved contributor, no stake is open; when a spot is open, the
  ceiling minimum \<open>m\<close> of the next contributor lies between 0 and the stake still open,
  the stake filled plus the open spots times \<open>m\<close> reaches \<^verbatim>\<open>MAX_STAKE\<close> (so it does with
  \<^verbatim>\<open>MAX_STAKERS - i\<close> in place of the open spots), and one more contributor who supplies
  all the stake still open meets its minimum and fills the node; and the minimum of a
  contributor is never above the minimum of the contributor before it. For a plan of
  non-negative amounts that \<open>check_stakes\<close> accepts, after every prefix the stake still
  open and the spots still open are not negative, no stake is open when no spot is open
  and the prefix holds more than the operator, and when a spot is open one more staker
  who supplies the stake still open is accepted; the formula is not claimed there.
\<close>

theorem accepted_plan_completable:
  "(validate_registration prim req (Inr p) = Json (Success (Some rep))
      \<and> parse_reserved prim 0 (zip (res_addr p) (res_stake p)) = Inr reserved \<longrightarrow>
      stake p + sum_list (map snd reserved) \<le> MAX_STAKE req
      \<and> 1 + int (length reserved) \<le> MAX_STAKERS req
      \<and> reserved_loop prim 0 reserved (MAX_STAKE req - stake p) (MAX_STAKERS req - 1)
          = Inr (remaining_stake_before req (stake p) reserved (length reserved),
                 remaining_spots_before req (length reserved)))
   \<and> (parse_reserved prim 0 (zip (res_addr p) (res_stake p)) = Inr reserved
      \<and> stake p + sum_list (map snd reserved) \<le> MAX_STAKE req
      \<and> 1 + int (length reserved) \<le> MAX_STAKERS req
      \<and> reserved_loop prim 0 reserved (MAX_STAKE req - stake p) (MAX_STAKERS req - 1) = Inr (r, s)
      \<and> i \<le> length reserved \<longrightarrow>
      0 \<le> remaining_stake_before req (stake p) reserved i
      \<and> 0 \<le> remaining_spots_before req i
      \<and> (remaining_spots_before req i = 0 \<and> 0 < i \<longrightarrow>
           remaining_stake_before req (stake p) reserved i = 0)
      \<and> (1 \<le> remaining_spots_before req i \<longrightarrow>
           0 \<le> reserved_min req (stake p) reserved i
           \<and> reserved_min req (stake p) reserved i
                 \<le> remaining_stake_before req (stake p) reserved i
           \<and> MAX_STAKE req \<le> stake p + sum_list (map snd (take i reserved))
                 + remaining_spots_before req i * reserved_min req (stake p) reserved i
           \<and> MAX_STAKE req \<le> stake p + sum_list (map snd (take i reserved))
                 + (MAX_STAKERS req - int i) * reserved_min req (stake p) reserved i
           \<and> reserved_loop prim 0
                 (take i reserved @ [(a, remaining_stake_before req (stake p) reserved i)])
                 (MAX_STAKE req - stake p) (MAX_STAKERS req - 1)
               = Inr (0, remaining_spots_before req i - 1))
      \<and> (i < length reserved \<and> 1 \<le> remaining_spots_before req (i + 1) \<longrightarrow>
           reserved_min req (stake p) reserved (i + 1)
             \<le> reserved_min req (stake p) reserved i))
   \<and> (check_stakes stakes total_stake stakers max_stakers = Inr ()
      \<and> list_all (\<lambda>s. 0 \<le> s) stakes \<and> k < length stakes \<longrightarrow>
      0 \<le> total_stake - sum_list (take (k + 1) stakes)
      \<and> 0 \<le> max_stakers - int (k + 1)
      \<and> (max_stakers - int (k + 1) = 0 \<and> 0 < k \<longrightarrow>
           total_stake - sum_list (take (k + 1) stakes) = 0)
      \<and> (1 \<le> max_stakers - int (k + 1) \<and> staker \<notin> set stakers \<longrightarrow>
           check_stakes (take (k + 1) stakes @ [total_stake - sum_list (take (k + 1) stakes)])
             total_stake (take (k + 1) stakers @ [staker]) max_stakers = Inr ()))"
proof (intro conjI impI)
  assume h: "validate_registration prim req (Inr p) = Json (Success (Some rep))
      \<and> parse_reserved prim 0 (zip (res_addr p) (res_stake p)) = Inr reserved"
  then have acc: "validate_registration prim req (Inr p) = Json (Success (Some rep))"
    and parsed: "parse_reserved prim 0 (zip (res_addr p) (res_stake p)) = Inr reserved"
    by simp_all
  note sc = stake_checks_accepted [OF validate_registration_accepted [OF acc parsed]]
  show "stake p + sum_list (map snd reserved) \<le> MAX_STAKE req" by (rule sc(2))
  show "1 + int (length reserved) \<le> MAX_STAKERS req" by (rule sc(3))
  show "reserved_loop prim 0 reserved (MAX_STAKE req - stake p) (MAX_STAKERS req - 1)
          = Inr (remaining_stake_before req (stake p) reserved (length reserved),
                 remaining_spots_before req (length reserved))" by (rule sc(4))
next
  assume h: "parse_reserved prim 0 (zip (res_addr p) (res_stake p)) = Inr reserved
      \<and> stake p + sum_list (map snd reserved) \<le> MAX_STAKE req
      \<and> 1 + int (length reserved) \<le> MAX_STAKERS req
      \<and> reserved_loop prim 0 reserved (MAX_STAKE req - stake p) (MAX_STAKERS req - 1) = Inr (r, s)
      \<and> i \<le> length reserved"
  then have parsed: "parse_reserved prim 0 (zip (res_addr p) (res_stake p)) = Inr reserved"
    and total: "stake p + sum_list (map snd reserved) \<le> MAX_STAKE req"
    and count: "1 + int (length reserved) \<le> MAX_STAKERS req"
    and loop: "reserved_loop prim 0 reserved (MAX_STAKE req - stake p) (MAX_STAKERS req - 1) = Inr (r, s)"
    and i: "i \<le> length reserved"
    by simp_all
  note f = reserved_plan_fair [OF parsed total count loop i]
  have filled: "stake p + sum_list (map snd (take i reserved))
      = MAX_STAKE req - remaining_stake_before req (stake p) reserved i"
    by (simp add: remaining_stake_before_def)
  show "0 \<le> remaining_stake_before req (stake p) reserved i" by (rule f(1))
  show "0 \<le> remaining_spots_before req i" by (rule f(2))
  {
    assume "remaining_spots_before req i = 0 \<and> 0 < i"
    then show "remaining_stake_before req (stake p) reserved i = 0" using f(3) by simp
  }
  {
    assume sp: "1 \<le> remaining_spots_before req i"
    show "0 \<le> reserved_min req (stake p) reserved i" by (rule f(4) [OF sp])
    show "reserved_min req (stake p) reserved i \<le> remaining_stake_before req (stake p) reserved i"
      by (rule f(5) [OF sp])
    show "MAX_STAKE req \<le> stake p + sum_list (map snd (take i reserved))
                 + remaining_spots_before req i * reserved_min req (stake p) reserved i"
      unfolding filled using f(6) [OF sp] by simp
    show "MAX_STAKE req \<le> stake p + sum_list (map snd (take i reserved))
                 + (MAX_STAKERS req - int i) * reserved_min req (stake p) reserved i"
      unfolding filled using f(7) [OF sp] by simp
    show "reserved_loop prim 0
                 (take i reserved @ [(a, remaining_stake_before req (stake p) reserved i)])
                 (MAX_STAKE req - stake p) (MAX_STAKERS req - 1)
               = Inr (0, remaining_spots_before req i - 1)"
      by (rule f(8) [OF sp])
  }
  {
    assume "i < length reserved \<and> 1 \<le> remaining_spots_before req (i + 1)"
    then show "reserved_min req (stake p) reserved (i + 1)
             \<le> reserved_min req (stake p) reserved i"
      using f(9) by simp
  }
next
  assume h: "check_stakes stakes total_stake stakers max_stakers = Inr ()
      \<and> list_all (\<lambda>s. 0 \<le> s) stakes \<and> k < length stakes"
  then have acc: "check_stakes stakes total_stake stakers max_stakers = Inr ()"
    and nonneg: "list_all (\<lambda>s. 0 \<le> s) stakes"
    and k: "k < length stakes"
    by simp_all
  note c = check_stakes_completable [OF acc nonneg k]
  show "0 \<le> total_stake - sum_list (take (k + 1) stakes)" by (rule c(1))
  show "0 \<le> max_stakers - int (k + 1)" by (rule c(2))
  {
    assume "max_stakers - int (k + 1) = 0 \<and> 0 < k"
    then show "total_stake - sum_list (take (k + 1) stakes) = 0" using c(3) by simp
  }
  {
    assume "1 \<le> max_stakers - int (k + 1) \<and> staker \<notin> set stakers"
    then show "check_stakes (take (k + 1) stakes @ [total_stake - sum_list (take (k + 1) stakes)])
             total_stake (take (k + 1) stakers @ [staker]) max_stakers = Inr ()"
      using c(4) by simp
  }
qed

theorem accepted_plan_completable_witness:
  "reserved_loop example_primitives 0 [(example_address_bytes, 10000000000000)]
         90000000000000 9 = Inr (80000000000000, 8)
   \<and> reserved_min scenario_requirement 30000000000000
         [(example_address_bytes, 10000000000000)] 1 = 10000000000000
   \<and> MAX_STAKE scenario_requirement \<le> 40000000000000 + 8 * 10000000000000
   \<and> reserved_loop example_primitives 0
         [(example_address_bytes, 10000000000000), (example_address_bytes, 80000000000000)]
         90000000000000 9 = Inr (0, 7)
   \<and> remaining_spots_before module_constants 9 = 0
   \<and> remaining_stake_before module_constants 30000000000
         (replicate 9 (example_address_bytes, 10000000000)) 9 = 0
   \<and> check_stakes [99] 100 [''a''] 3 = Inr ()
   \<and> check_stakes [99, 1] 100 [''a'', ''b''] 3 = Inr ()"
proof -
  let ?p = "example_request 30000000000000 [''10000'']"
  let ?reserved = "[(example_address_bytes, 10000000000000 :: int)]"
  let ?q = "example_request 30000000000 (replicate 9 ''10'')"
  let ?nine = "replicate 9 (example_address_bytes, 10000000000 :: int)"
  have nine: "replicate 9 x = [x, x, x, x, x, x, x, x, x]" for x :: 'a
    by (simp add: numeral_eq_Suc)
  have parsed: "parse_reserved example_primitives 0 (zip (res_addr ?p) (res_stake ?p)) = Inr ?reserved"
    by (simp add: example_request_facts raw_eth_addr_example parse_currency_examples)
  have parsed9: "parse_reserved example_primitives 0 (zip (res_addr ?q) (res_stake ?q)) = Inr ?nine"
    using parse_reserved_example [of "10000000000" "replicate 9 ''10''" 0]
    by (simp add: example_request_facts parse_currency_examples list_all_iff)
  have m: "reserved_min scenario_requirement 30000000000000 ?reserved (Suc 0) = 10000000000000"
    by (simp add: reserved_min_def remaining_stake_before_def remaining_spots_before_def
        scenario_requirement_def)
  have sp: "remaining_spots_before scenario_requirement (Suc 0) = 8"
    "MAX_STAKE scenario_requirement = 120000000000000"
    "MAX_STAKERS scenario_requirement = 10"
    "remaining_stake_before scenario_requirement 30000000000000 ?reserved (Suc 0) = 80000000000000"
    by (simp_all add: remaining_spots_before_def remaining_stake_before_def scenario_requirement_def)
  have mc: "MAX_STAKE module_constants = 120000000000" "MAX_STAKERS module_constants = 10"
    "remaining_spots_before module_constants 9 = 0"
    by (simp_all add: module_constants_def remaining_spots_before_def)
  have loop9: "reserved_loop example_primitives 0 ?nine 90000000000 9 = Inr (0, 0)"
    by (simp add: nine floordiv_def)
  have small: "check_stakes [99] 100 [''a''] 3 = Inr ()"
    by (simp add: check_stakes_def floordiv_def)
  note inst = accepted_plan_completable
    [where prim = example_primitives and req = scenario_requirement and p = ?p
       and reserved = ?reserved and i = "Suc 0" and a = example_address_bytes
       and r = 80000000000000 and s = 8
       and stakes = "[99]" and total_stake = 100 and stakers = "[''a'']" and max_stakers = 3
       and k = 0 and staker = "''b''"]
  note full = accepted_plan_completable
    [where prim = example_primitives and req = module_constants and p = ?q
       and reserved = ?nine and i = 9 and r = 0 and s = 0, THEN conjunct2, THEN conjunct1,
     rule_format]
  have link: "reserved_loop example_primitives 0 ?reserved 90000000000000 9
      = Inr (80000000000000, 8)"
    using inst [THEN conjunct1, rule_format] example_request_accepted parsed
    by (simp add: sp example_request_facts del: reserved_loop.simps)
  have "reserved_loop example_primitives 0
         [(example_address_bytes, 10000000000000), (example_address_bytes, 80000000000000)]
         90000000000000 9 = Inr (0, 7)"
    using inst [THEN conjunct2, THEN conjunct1, rule_format] parsed link
    by (simp add: m sp example_request_facts del: reserved_loop.simps)
  moreover have "remaining_stake_before module_constants 30000000000 ?nine 9 = 0"
    using full parsed9 loop9
    by (simp add: mc sum_list_replicate example_request_facts del: reserved_loop.simps)
  moreover have "check_stakes [99, 1] 100 [''a'', ''b''] 3 = Inr ()"
    using inst [THEN conjunct2, THEN conjunct2, rule_format] small by simp
  ultimately show ?thesis
    using link m small by (simp add: sp mc)
qed

section \<open>Properties of the stored registrations\<close>














text \<open>
  Claim C10. \<^verbatim>\<open>/validate\<close> answers its validation failures with error dictionaries, but
  \<^verbatim>\<open>/store\<close> does not: its handler re-raises, so a parse failure and a failed key or
  signature check both escape as exceptions, and the table is left as it was.
\<close>

theorem store_registration_raises:
  "store_registration prim sn_pubkey (Inl e) now table = (Raised e, table)
   \<and> (check_reg_keys_sigs prim (p\<lparr>pubkey_ed25519 := sn_pubkey\<rparr>) = Inl e' \<longrightarrow>
        store_registration prim sn_pubkey (Inr p) now table = (Raised e', table))"
  by (simp add: store_registration_def)

theorem store_registration_raises_witness:
  "store_registration example_primitives (replicate 32 1) (Inl (ParseMissingError ''operator'')) 0 []
     = (Raised (ParseMissingError ''operator''), [])
   \<and> store_registration example_primitives (replicate 32 1)
       (Inr (example_params\<lparr>sig_ed25519 := replicate 64 0\<rparr>)) 0 []
     = (Raised (SNSignatureValidationError ''Ed25519 signature is invalid''), [])"
proof (intro conjI)
  show "store_registration example_primitives (replicate 32 1) (Inl (ParseMissingError ''operator'')) 0 []
     = (Raised (ParseMissingError ''operator''), [])"
    using store_registration_raises [of example_primitives "replicate 32 1" "ParseMissingError ''operator''" 0 "[]"]
    by simp
  have "check_reg_keys_sigs example_primitives
          (example_params\<lparr>sig_ed25519 := replicate 64 0, pubkey_ed25519 := replicate 32 1\<rparr>)
        = Inl (SNSignatureValidationError ''Ed25519 signature is invalid'')"
    by (simp add: check_reg_keys_sigs_def example_primitives_def example_params_def
        replicate_append_same numeral_eq_Suc)
  then show "store_registration example_primitives (replicate 32 1)
       (Inr (example_params\<lparr>sig_ed25519 := replicate 64 0\<rparr>)) 0 []
     = (Raised (SNSignatureValidationError ''Ed25519 signature is invalid''), [])"
    using store_registration_raises [of example_primitives "replicate 32 1" _ 0 "[]"
        "example_params\<lparr>sig_ed25519 := replicate 64 0\<rparr>"
        "SNSignatureValidationError ''Ed25519 signature is invalid''"]
    by simp
qed

text \<open>
  In \<^verbatim>\<open>/validate\<close> itself a reserved address that does not match \<^verbatim>\<open>eth_re\<close> and that the
  library cannot format escapes as \<^verbatim>\<open>TypeError\<close>, from the handler that builds the error.
\<close>

lemma parse_reserved_malformed_address:
  assumes "\<not> fullmatch_eth_re addr" and "to_checksum_address prim (AddressText addr) = None"
  shows "parse_reserved prim i ((addr, stake_text) # rest) = Inl (Raised TypeError)"
  using assms by (simp add: raw_eth_addr_def eth_format_def)

section \<open>Properties of \<^verbatim>\<open>operator_registrations\<close>\<close>

lemma scan_nodes_ok:
  "list_all (\<lambda>n. \<not> isl (bytes_fromhex (node_pubkey_ed25519 n))) nodes \<Longrightarrow>
   scan_nodes nodes sn_pubkey = Inr ()"
  by (induction nodes) (auto split: sum.splits)

lemma operator_rows_all:
  "list_all (\<lambda>n. \<not> isl (bytes_fromhex (node_pubkey_ed25519 n))) nodes \<Longrightarrow>
   operator_rows (Some nodes) rows = Inr (map registration_of_row rows)"
  by (induction rows) (simp_all add: scan_nodes_ok)

text \<open>
  Claim C9. The listing does not leave out the registrations of active nodes: when the
  pubkeys of the nodes decode, the endpoint returns every stored registration of the
  operator, newest first, whatever the nodes are. The \<^verbatim>\<open>continue\<close> that was to skip a
  registration continues the loop over the nodes.
\<close>

theorem operator_registrations_lists_active:
  assumes "list_all (\<lambda>n. \<not> isl (bytes_fromhex (node_pubkey_ed25519 n))) nodes"
    and "bytes_fromhex (drop 2 op) = Inr op_bytes"
  shows "operator_registrations (Some nodes) op table
           = Json (map registration_of_row
                    (order_by_timestamp_desc (filter (\<lambda>r. row_operator r = op_bytes) table)))"
  using assms by (simp add: operator_registrations_def operator_rows_all)

lemma replicate_32: "replicate 32 x = replicate 20 x @ [x,x,x,x,x, x,x,x,x,x, x,x]"
  by (simp add: numeral_eq_Suc)

lemma example_node_pubkey:
  "bytes_fromhex (node_pubkey_ed25519 example_node) = Inr (row_pubkey_ed25519 example_row)"
  by (simp add: example_node_def example_row_def is_space_def is_hexdigit_def hex_val_def
      replicate_32 replicate_20)

lemma example_operator:
  "bytes_fromhex (drop 2 example_address) = Inr example_address_bytes"
  by (simp add: example_address_def example_address_bytes_def is_space_def is_hexdigit_def
      hex_val_def replicate_20)

theorem operator_registrations_lists_active_witness:
  "node_active example_node
   \<and> bytes_fromhex (node_pubkey_ed25519 example_node) = Inr (row_pubkey_ed25519 example_row)
   \<and> operator_registrations (Some [example_node]) example_address [example_row]
       = Json [(Solo, example_row)]"
proof (intro conjI)
  show "node_active example_node" by (simp add: example_node_def)
  show "bytes_fromhex (node_pubkey_ed25519 example_node) = Inr (row_pubkey_ed25519 example_row)"
    by (rule example_node_pubkey)
  have nodes: "list_all (\<lambda>n. \<not> isl (bytes_fromhex (node_pubkey_ed25519 n))) [example_node]"
    by (simp add: example_node_pubkey)
  show "operator_registrations (Some [example_node]) example_address [example_row]
       = Json [(Solo, example_row)]"
    using operator_registrations_lists_active [OF nodes example_operator, of "[example_row]"]
    by (simp add: order_by_timestamp_desc_def registration_of_row_def registration_kind_def
        example_row_def)
qed

end
